theory Spec2Isabelle
  imports Complex_Main "HOL-Library.Word"
begin

unbundle bit_operations_syntax

section \<open>Values of the language\<close>

text \<open>
  A JavaScript string is a sequence of UTF-16 code units. \<open>ascii\<close> writes the
  literals of the source; every literal of the source is ASCII.
\<close>

type_synonym jsstring = "16 word list"
type_synonym byte = "8 word"
type_synonym int16 = "16 word"

definition ascii :: "string \<Rightarrow> jsstring" where
  "ascii s = map (\<lambda>c. of_nat (of_char c)) s"

text \<open>
  \<open>String.prototype.trim\<close> removes WhiteSpace and LineTerminator code units from both
  ends: TAB, LF, VT, FF, CR, SP, NBSP, U+1680, U+2000..U+200A, LS, PS, U+202F, U+205F,
  U+3000 and the byte order mark.
\<close>

definition is_whitespace :: "16 word \<Rightarrow> bool" where
  "is_whitespace c \<longleftrightarrow>
     c \<in> set [0x0009, 0x000A, 0x000B, 0x000C, 0x000D, 0x0020, 0x00A0, 0x1680,
              0x2028, 0x2029, 0x202F, 0x205F, 0x3000, 0xFEFF]
     \<or> (0x2000 \<le> c \<and> c \<le> 0x200A)"

definition js_trim :: "jsstring \<Rightarrow> jsstring" where
  "js_trim s = rev (dropWhile is_whitespace (rev (dropWhile is_whitespace s)))"

text \<open>
  A number is a double. The samples of a \<open>Float32Array\<close> are single-precision values;
  their product with \<open>32768 = 2^15\<close> and the quotient of a 16-bit integer by
  \<open>32768.0\<close> are exact in binary floating point, so the finite numbers are modelled
  by the reals they denote.
\<close>

datatype js_number = Finite real | NaN | PosInfinity | NegInfinity

fun times_number :: "js_number \<Rightarrow> real \<Rightarrow> js_number" where
  "times_number (Finite x) k = Finite (x * k)"
| "times_number NaN k = NaN"
| "times_number PosInfinity k =
     (if 0 < k then PosInfinity else if k < 0 then NegInfinity else NaN)"
| "times_number NegInfinity k =
     (if 0 < k then NegInfinity else if k < 0 then PosInfinity else NaN)"

text \<open>Truncation towards zero, the first step of the conversion \<open>ToInt16\<close>.\<close>

definition js_truncate :: "real \<Rightarrow> int" where
  "js_truncate x = (if x < 0 then - \<lfloor>- x\<rfloor> else \<lfloor>x\<rfloor>)"

text \<open>
  Storing a number into an \<open>Int16Array\<close> element applies \<open>ToInt16\<close>: NaN and the
  infinities become 0, a finite number is truncated and taken modulo \<open>2^16\<close>.
\<close>

fun ToInt16 :: "js_number \<Rightarrow> int16" where
  "ToInt16 (Finite x) = word_of_int (js_truncate x)"
| "ToInt16 NaN = 0"
| "ToInt16 PosInfinity = 0"
| "ToInt16 NegInfinity = 0"

datatype js_error = RangeError | NotSupportedError | IndexSizeError | TypeError

text \<open>
  Reading \<open>xs[i]\<close>: \<open>None\<close> stands for \<open>undefined\<close>, the value of a read out of
  range.
\<close>

definition js_index :: "'a list \<Rightarrow> int \<Rightarrow> 'a option" where
  "js_index xs i = (if 0 \<le> i \<and> i < int (length xs) then Some (xs ! nat i) else None)"

text \<open>\<open>xs.slice(0, e)\<close>: a negative end counts from the end of the array.\<close>

definition js_slice0 :: "'a list \<Rightarrow> int \<Rightarrow> 'a list" where
  "js_slice0 xs e =
     (let len = int (length xs);
          k = (if e < 0 then max (len + e) 0 else min e len)
      in take (nat k) xs)"

section \<open>types.ts\<close>

datatype TranslationStatus = IDLE | LOADING | SUCCESS | ERROR

record TranslationResult =
  translatedText :: jsstring
  detectedLanguage :: jsstring
  resultConfidence :: real

section \<open>The PCM codec\<close>

text \<open>
  A typed array over a buffer reads and writes in the byte order of the platform;
  the model is of a little-endian platform.
\<close>

definition le_bytes :: "int16 \<Rightarrow> byte list" where
  "le_bytes w = [ucast w, ucast (drop_bit 8 w)]"

text \<open>\<open>new Uint8Array(int16.buffer)\<close>\<close>

definition Uint8Array_of_buffer :: "int16 list \<Rightarrow> byte list" where
  "Uint8Array_of_buffer int16 = concat (map le_bytes int16)"

fun int16_view :: "byte list \<Rightarrow> int16 list" where
  "int16_view (lo # hi # rest) = (push_bit 8 (ucast hi) OR ucast lo) # int16_view rest"
| "int16_view rest = []"

text \<open>
  \<open>new Int16Array(buffer)\<close> throws a RangeError when the byte length of the buffer is
  not a multiple of 2.
\<close>

definition Int16Array :: "byte list \<Rightarrow> js_error + int16 list" where
  "Int16Array buffer =
     (if length buffer mod 2 \<noteq> 0 then Inl RangeError else Inr (int16_view buffer))"

text \<open>
  An \<open>AudioBuffer\<close>: the sample data of its channels and its sample rate. An
  \<open>AudioContext\<close> is given by its method \<open>createBuffer(numberOfChannels, length,
  sampleRate)\<close>, which belongs to the platform.
\<close>

record audio_buffer =
  channels :: "real list list"
  sampleRate :: nat

type_synonym audio_context = "nat \<Rightarrow> nat \<Rightarrow> nat \<Rightarrow> js_error + audio_buffer"

text \<open>The buffer of silence that a successful \<open>createBuffer\<close> returns.\<close>

definition silence :: "nat \<Rightarrow> nat \<Rightarrow> nat \<Rightarrow> audio_buffer" where
  "silence numberOfChannels len rate =
     \<lparr>channels = replicate numberOfChannels (replicate len 0), sampleRate = rate\<rparr>"

text \<open>
  A context as Web Audio specifies \<open>createBuffer\<close>: a NotSupportedError when an
  argument is zero, a zero-initialised buffer otherwise (the bounds a browser puts
  on the arguments from above are left out).
\<close>

definition createBuffer :: audio_context where
  "createBuffer numberOfChannels len rate =
     (if numberOfChannels = 0 \<or> len = 0 \<or> rate = 0 then Inl NotSupportedError
      else Inr (silence numberOfChannels len rate))"

text \<open>
  The loop of \<open>decodeGeminiPCM\<close>. A write beyond the end of a typed array is
  ignored, as \<open>list_update\<close> does.
\<close>

function decode_loop :: "int16 list \<Rightarrow> nat \<Rightarrow> real list \<Rightarrow> real list" where
  "decode_loop dataInt16 i channelData =
     (if i < length dataInt16 then
        decode_loop dataInt16 (Suc i)
          (channelData[i := real_of_int (sint (dataInt16 ! i)) / 32768])
      else channelData)"
  by pat_completeness auto
termination
  by (relation "measure (\<lambda>(dataInt16, i, channelData). length dataInt16 - i)") auto

declare decode_loop.simps [simp del]

definition decodeGeminiPCM ::
  "byte list \<Rightarrow> audio_context \<Rightarrow> nat \<Rightarrow> js_error + audio_buffer" where
  "decodeGeminiPCM buffer ctx rate =
     (case Int16Array buffer of
        Inl e \<Rightarrow> Inl e
      | Inr dataInt16 \<Rightarrow>
          (case ctx 1 (length dataInt16) rate of
             Inl e \<Rightarrow> Inl e
           | Inr audioBuffer \<Rightarrow>
               (case channels audioBuffer of
                  [] \<Rightarrow> Inl IndexSizeError
                | channelData # others \<Rightarrow>
                    Inr (audioBuffer\<lparr>channels :=
                           decode_loop dataInt16 0 channelData # others\<rparr>))))"

text \<open>The default of the parameter \<open>sampleRate\<close>.\<close>

definition default_sampleRate :: nat where
  "default_sampleRate = 24000"

text \<open>
  \<open>encode\<close>: the loop appends \<open>String.fromCharCode(bytes[i])\<close> to \<open>binary\<close>;
  \<open>btoa\<close> belongs to the platform and is a parameter.
\<close>

definition encode :: "(jsstring \<Rightarrow> jsstring) \<Rightarrow> byte list \<Rightarrow> jsstring" where
  "encode btoa bytes = btoa (foldl (\<lambda>binary b. binary @ [ucast b]) [] bytes)"

text \<open>The loop of \<open>createAudioBlob\<close>.\<close>

function encode_loop :: "js_number list \<Rightarrow> nat \<Rightarrow> int16 list \<Rightarrow> int16 list" where
  "encode_loop data i int16 =
     (if i < length data then
        encode_loop data (Suc i) (int16[i := ToInt16 (times_number (data ! i) 32768)])
      else int16)"
  by pat_completeness auto
termination
  by (relation "measure (\<lambda>(data, i, int16). length data - i)") auto

declare encode_loop.simps [simp del]

text \<open>
  The bytes \<open>createAudioBlob\<close> hands to \<open>encode\<close>: what the specification calls
  \<open>floatToPCM16\<close>.
\<close>

definition floatToPCM16 :: "js_number list \<Rightarrow> byte list" where
  "floatToPCM16 data =
     (let l = length data;
          int16 = encode_loop data 0 (replicate l 0)
      in Uint8Array_of_buffer int16)"

text \<open>The \<open>Blob\<close> of the Live API; \<open>blobData\<close> is its field \<open>data\<close>.\<close>

record blob =
  blobData :: jsstring
  mimeType :: jsstring

definition createAudioBlob :: "(jsstring \<Rightarrow> jsstring) \<Rightarrow> js_number list \<Rightarrow> blob" where
  "createAudioBlob btoa data =
     \<lparr>blobData = encode btoa (floatToPCM16 data),
      mimeType = ascii ''audio/pcm;rate=16000''\<rparr>"

text \<open>
  The encoding as the specification words it: each sample \<open>s\<close> maps to
  \<open>round(s \<times> 32768)\<close>, stored as a little-endian 16-bit integer modulo \<open>2^16\<close>.
\<close>

definition spec_floatToPCM16 :: "real list \<Rightarrow> byte list" where
  "spec_floatToPCM16 samples =
     concat (map (\<lambda>s. le_bytes (word_of_int (round (s * 32768)))) samples)"

section \<open>The state of the App component\<close>

datatype tab = TextTab | DocumentTab

text \<open>
  The \<open>useState\<close> cells and the refs of \<open>App\<close> that the handlers below read or write.
  \<open>storedSourceText\<close> is the entry \<open>lingoai_source_text\<close> of \<open>localStorage\<close>;
  \<open>audioContextRef\<close> holds the playback context once one has been created.
  The counter \<open>activeStreamRef\<close> only ever counts up from 0.
\<close>

record app_state =
  activeTab :: tab
  sourceText :: jsstring
  targetText :: jsstring
  sourceLang :: jsstring
  targetLang :: jsstring
  status :: TranslationStatus
  detectedLang :: jsstring
  confidence :: real
  error :: "jsstring option"
  isSpeaking :: bool
  isRecording :: bool
  history :: "jsstring list"
  historyIndex :: int
  isInternalChange :: bool
  uploadedFileName :: "jsstring option"
  translatedDocContent :: "jsstring option"
  selection :: "(jsstring \<times> real \<times> real) option"
  activeStreamRef :: nat
  storedSourceText :: "jsstring option"
  audioContextRef :: "audio_context option"

definition initial_state :: app_state where
  "initial_state =
     \<lparr>activeTab = TextTab, sourceText = [], targetText = [],
      sourceLang = ascii ''auto'', targetLang = ascii ''es'', status = IDLE,
      detectedLang = [], confidence = 0, error = None, isSpeaking = False,
      isRecording = False, history = [[]], historyIndex = 0,
      isInternalChange = False, uploadedFileName = None,
      translatedDocContent = None, selection = None, activeStreamRef = 0,
      storedSourceText = None, audioContextRef = None\<rparr>"

section \<open>handleTranslate\<close>

text \<open>
  An asynchronous function runs from one \<open>await\<close> to the next without interruption.
  A call of \<open>handleTranslate\<close> that reaches the stream is a task: the values its
  closure holds and the \<open>await\<close> at which it is suspended. \<open>handleTranslate\<close> is the
  run up to the first \<open>await\<close>; \<open>handleTranslate_resume\<close> is the run from one
  \<open>await\<close> to the next, on the event that settles it. A task that has returned is
  \<open>None\<close>.
\<close>

datatype translate_await = AwaitChunk | AwaitResult

record translate_task =
  streamId :: nat
  taskText :: jsstring
  taskSourceLang :: jsstring
  taskTargetLang :: jsstring
  fullText :: jsstring
  awaiting :: translate_await

text \<open>
  What settles an \<open>await\<close>: the stream yields a chunk or ends, \<open>translateText\<close>
  returns its result, or either of them throws an error with the given \<open>message\<close>
  (\<open>None\<close> when it has none).
\<close>

datatype translate_event =
  Chunk jsstring
| StreamEnd
| Fulfilled TranslationResult
| Rejected "jsstring option"

definition handleTranslate ::
  "jsstring \<Rightarrow> app_state \<Rightarrow> app_state \<times> translate_task option" where
  "handleTranslate txt st =
     (if js_trim txt = [] then
        (st\<lparr>targetText := [], detectedLang := [], confidence := 0\<rparr>, None)
      else
        let streamId = activeStreamRef st + 1 in
        (st\<lparr>activeStreamRef := streamId, status := LOADING, error := None,
            targetText := []\<rparr>,
         Some \<lparr>streamId = streamId, taskText = txt, taskSourceLang = sourceLang st,
               taskTargetLang = targetLang st, fullText = [], awaiting = AwaitChunk\<rparr>))"

text \<open>\<open>err.message || 'Translation failed. Please try again.'\<close>\<close>

definition error_message :: "jsstring option \<Rightarrow> jsstring" where
  "error_message m =
     (case m of
        None \<Rightarrow> ascii ''Translation failed. Please try again.''
      | Some s \<Rightarrow> if s = [] then ascii ''Translation failed. Please try again.'' else s)"

text \<open>The \<open>catch\<close> block.\<close>

definition handleTranslate_catch ::
  "app_state \<Rightarrow> translate_task \<Rightarrow> jsstring option \<Rightarrow> app_state \<times> translate_task option" where
  "handleTranslate_catch st t m =
     (if streamId t \<noteq> activeStreamRef st then (st, None)
      else (st\<lparr>error := Some (error_message m), status := ERROR\<rparr>, None))"

text \<open>
  An event that cannot settle the \<open>await\<close> the task is suspended at is not delivered:
  the last equation leaves the state and the task as they are.
\<close>

fun handleTranslate_step ::
  "translate_await \<Rightarrow> translate_event \<Rightarrow> app_state \<Rightarrow> translate_task \<Rightarrow>
   app_state \<times> translate_task option" where
  "handleTranslate_step AwaitChunk (Chunk chunk) st t =
     (if streamId t \<noteq> activeStreamRef st then (st, None)
      else
        let fullText' = fullText t @ chunk in
        (st\<lparr>targetText := fullText'\<rparr>, Some (t\<lparr>fullText := fullText'\<rparr>)))"
| "handleTranslate_step AwaitChunk StreamEnd st t =
     (if taskSourceLang t = ascii ''auto'' then (st, Some (t\<lparr>awaiting := AwaitResult\<rparr>))
      else (st\<lparr>status := SUCCESS\<rparr>, None))"
| "handleTranslate_step AwaitResult (Fulfilled result) st t =
     (if streamId t \<noteq> activeStreamRef st then (st, None)
      else
        (st\<lparr>detectedLang := detectedLanguage result,
            confidence := resultConfidence result, status := SUCCESS\<rparr>, None))"
| "handleTranslate_step a (Rejected m) st t = handleTranslate_catch st t m"
| "handleTranslate_step a e st t = (st, Some t)"

definition handleTranslate_resume ::
  "app_state \<Rightarrow> translate_task \<Rightarrow> translate_event \<Rightarrow> app_state \<times> translate_task option" where
  "handleTranslate_resume st t e = handleTranslate_step (awaiting t) e st t"

section \<open>The debounced translation effect\<close>

text \<open>
  The effect runs after a render in which \<open>sourceText\<close>, \<open>handleTranslate\<close>,
  \<open>isRecording\<close> or \<open>activeTab\<close> changed; the timer of the previous run has been
  cleared. It returns the state and, when it starts the 300 ms timer, the text the
  timer's callback will pass to \<open>handleTranslate\<close>.
\<close>

definition debounceEffect :: "app_state \<Rightarrow> app_state \<times> jsstring option" where
  "debounceEffect st =
     (if activeTab st \<noteq> TextTab then (st, None)
      else if 0 < length (sourceText st) \<and> \<not> isRecording st then (st, Some (sourceText st))
      else if length (sourceText st) = 0 then
        (st\<lparr>targetText := [], detectedLang := [], confidence := 0, status := IDLE\<rparr>, None)
      else (st, None))"

section \<open>Undo and redo\<close>

text \<open>
  \<open>history[i]\<close> is typed \<open>string\<close>; a read out of range would put \<open>undefined\<close> into
  \<open>sourceText\<close>. The handlers return \<open>None\<close> there: the state has left its type.
\<close>

definition handleUndo :: "app_state \<Rightarrow> app_state option" where
  "handleUndo st =
     (if 0 < historyIndex st then
        (case js_index (history st) (historyIndex st - 1) of
           None \<Rightarrow> None
         | Some prevText \<Rightarrow>
             Some (st\<lparr>isInternalChange := True, historyIndex := historyIndex st - 1,
                      sourceText := prevText\<rparr>))
      else Some st)"

definition handleRedo :: "app_state \<Rightarrow> app_state option" where
  "handleRedo st =
     (if historyIndex st < int (length (history st)) - 1 then
        (case js_index (history st) (historyIndex st + 1) of
           None \<Rightarrow> None
         | Some nextText \<Rightarrow>
             Some (st\<lparr>isInternalChange := True, historyIndex := historyIndex st + 1,
                      sourceText := nextText\<rparr>))
      else Some st)"

text \<open>
  The history tracking effect runs after a render in which \<open>sourceText\<close>, \<open>history\<close>
  or \<open>historyIndex\<close> changed. It returns the state and whether it started the 500 ms
  timer.
\<close>

definition historyEffect :: "app_state \<Rightarrow> app_state \<times> bool" where
  "historyEffect st =
     (if isInternalChange st then (st\<lparr>isInternalChange := False\<rparr>, False)
      else (st, True))"

text \<open>
  The callback of the timer. Any change of \<open>sourceText\<close>, \<open>history\<close> or
  \<open>historyIndex\<close> clears the timer, so the values its closure holds are the current
  ones when it fires.
\<close>

definition historyTimer :: "app_state \<Rightarrow> app_state" where
  "historyTimer st =
     (if Some (sourceText st) \<noteq> js_index (history st) (historyIndex st) then
        let newHistory = js_slice0 (history st) (historyIndex st + 1) @ [sourceText st];
            newHistory = (if 50 < length newHistory then tl newHistory else newHistory)
        in st\<lparr>history := newHistory, historyIndex := int (length newHistory) - 1\<rparr>
      else st)"

text \<open>
  One push of the edit history: the text changes to \<open>txt\<close>, the effect runs, and the
  text stays as it is until the timer fires.
\<close>

definition push :: "jsstring \<Rightarrow> app_state \<Rightarrow> app_state" where
  "push txt st =
     (let (st', timer) = historyEffect (st\<lparr>sourceText := txt\<rparr>)
      in if timer then historyTimer st' else st')"

text \<open>The invariant of the edit history.\<close>

definition history_inv :: "app_state \<Rightarrow> bool" where
  "history_inv st \<longleftrightarrow>
     length (history st) \<le> 50 \<and> 0 \<le> historyIndex st
     \<and> historyIndex st < int (length (history st))"

section \<open>handleClear\<close>

definition handleClear :: "app_state \<Rightarrow> app_state" where
  "handleClear st =
     st\<lparr>sourceText := [], targetText := [], detectedLang := [], confidence := 0,
        error := None, status := IDLE, selection := None, uploadedFileName := None,
        translatedDocContent := None, storedSourceText := None\<rparr>"

section \<open>handleSpeak\<close>

text \<open>
  \<open>handleSpeak\<close> is created anew by every render and reads the \<open>isSpeaking\<close> of that
  render: the first argument is the value its closure holds. The second argument is
  what \<open>new AudioContext({ sampleRate: 24000 })\<close> does when the call needs a context:
  it returns one or throws. A call that reaches the request \<open>generateSpeech(text)\<close> is
  a task, suspended at the request or waiting for the playback to end. Everything from
  the creation of the context on is inside the \<open>try\<close>; the \<open>catch\<close> block clears the
  flag.
\<close>

datatype speak_task = AwaitSpeech jsstring | AwaitEnded

datatype speak_event = SpeechFulfilled "byte list" | SpeechRejected | Ended

definition handleSpeak ::
  "bool \<Rightarrow> js_error + audio_context \<Rightarrow> jsstring \<Rightarrow> app_state \<Rightarrow>
   app_state \<times> speak_task option" where
  "handleSpeak isSpeaking_seen newAudioContext txt st =
     (if txt = [] \<or> isSpeaking_seen then (st, None)
      else
        let st = st\<lparr>isSpeaking := True\<rparr> in
        (case audioContextRef st of
           Some ctx \<Rightarrow> (st, Some (AwaitSpeech txt))
         | None \<Rightarrow>
             (case newAudioContext of
                Inl e \<Rightarrow> (st\<lparr>isSpeaking := False\<rparr>, None)
              | Inr ctx \<Rightarrow> (st\<lparr>audioContextRef := Some ctx\<rparr>, Some (AwaitSpeech txt)))))"

text \<open>
  The run after the request: \<open>startPlayback\<close> is what \<open>createBufferSource\<close>,
  \<open>connect\<close> and \<open>start\<close> do with the decoded buffer, the error they throw if any.
  With no context in \<open>audioContextRef\<close> the call \<open>ctx.createBuffer\<close> throws a
  TypeError, which the \<open>catch\<close> block receives like any other error.
\<close>

fun handleSpeak_resume ::
  "(audio_buffer \<Rightarrow> js_error option) \<Rightarrow> app_state \<Rightarrow> speak_task \<Rightarrow> speak_event \<Rightarrow>
   app_state \<times> speak_task option" where
  "handleSpeak_resume startPlayback st (AwaitSpeech txt) (SpeechFulfilled audioData) =
     (case audioContextRef st of
        None \<Rightarrow> (st\<lparr>isSpeaking := False\<rparr>, None)
      | Some ctx \<Rightarrow>
          (case decodeGeminiPCM audioData ctx default_sampleRate of
             Inl e \<Rightarrow> (st\<lparr>isSpeaking := False\<rparr>, None)
           | Inr audioBuffer \<Rightarrow>
               (case startPlayback audioBuffer of
                  Some e \<Rightarrow> (st\<lparr>isSpeaking := False\<rparr>, None)
                | None \<Rightarrow> (st, Some AwaitEnded))))"
| "handleSpeak_resume startPlayback st (AwaitSpeech txt) SpeechRejected =
     (st\<lparr>isSpeaking := False\<rparr>, None)"
| "handleSpeak_resume startPlayback st AwaitEnded Ended = (st\<lparr>isSpeaking := False\<rparr>, None)"
| "handleSpeak_resume startPlayback st t e = (st, Some t)"

section \<open>A state with three snapshots\<close>

text \<open>
  The history after the texts \<open>a\<close> and \<open>ab\<close> were typed, each followed by a quiet
  period, with the cursor on the last snapshot.
\<close>

definition example_history :: app_state where
  "example_history =
     initial_state\<lparr>sourceText := ascii ''ab'', history := [[], ascii ''a'', ascii ''ab''],
       historyIndex := 2\<rparr>"

section \<open>A state with a pending edit\<close>

text \<open>
  The text \<open>a\<close> was typed and recorded after its quiet period; then \<open>b\<close> was typed,
  and the 500 ms of the history timer have not passed yet.
\<close>

definition pending_edit :: app_state where
  "pending_edit = (push (ascii ''a'') initial_state)\<lparr>sourceText := ascii ''ab''\<rparr>"

section \<open>Properties of handleTranslate\<close>

subsection \<open>Text that trims to nothing\<close>

lemma js_trim_empty_iff: "js_trim s = [] \<longleftrightarrow> (\<forall>c \<in> set s. is_whitespace c)"
proof
  assume "js_trim s = []"
  then have "dropWhile is_whitespace (rev (dropWhile is_whitespace s)) = []"
    by (simp add: js_trim_def)
  then have all: "\<forall>c \<in> set (dropWhile is_whitespace s). is_whitespace c"
    using dropWhile_eq_Nil_conv [of is_whitespace "rev (dropWhile is_whitespace s)"] by simp
  have "dropWhile is_whitespace s = []"
  proof (rule ccontr)
    assume ne: "dropWhile is_whitespace s \<noteq> []"
    then have "\<not> is_whitespace (hd (dropWhile is_whitespace s))"
      by (rule hd_dropWhile)
    moreover from ne have "hd (dropWhile is_whitespace s) \<in> set (dropWhile is_whitespace s)"
      by simp
    ultimately show False using all by blast
  qed
  then show "\<forall>c \<in> set s. is_whitespace c"
    using dropWhile_eq_Nil_conv [of is_whitespace s] by blast
next
  assume "\<forall>c \<in> set s. is_whitespace c"
  then have "dropWhile is_whitespace s = []"
    using dropWhile_eq_Nil_conv [of is_whitespace s] by blast
  then show "js_trim s = []"
    by (simp only: js_trim_def rev.simps dropWhile.simps)
qed

lemma js_trim_hi: "js_trim (ascii ''hi'') \<noteq> []" "js_trim (ascii ''hit'') \<noteq> []"
  by (simp_all add: js_trim_def is_whitespace_def ascii_def)

text \<open>
  Claim C9. Called with a text that is not empty but trims to the empty string,
  \<open>handleTranslate\<close> clears the target text, the detected language and the
  confidence and returns: no task is started, and the counter, the status, the error
  message and every other cell stay as they are. Such a text passes the guard
  \<open>sourceText.length > 0\<close> of the debounced effect, which starts the timer and leaves
  the status alone instead of setting it to IDLE.
\<close>

theorem whitespace_only_partial_clear:
  assumes "v \<noteq> []" and "js_trim v = []"
  shows "handleTranslate v st
           = (st\<lparr>targetText := [], detectedLang := [], confidence := 0\<rparr>, None)
     \<and> activeStreamRef (fst (handleTranslate v st)) = activeStreamRef st
     \<and> status (fst (handleTranslate v st)) = status st
     \<and> error (fst (handleTranslate v st)) = error st
     \<and> (activeTab st = TextTab \<and> \<not> isRecording st \<and> sourceText st = v \<longrightarrow>
          debounceEffect st = (st, Some v))"
  using assms by (simp add: handleTranslate_def debounceEffect_def)

text \<open>
  The theorem at the text of a space and a tab, in a state that shows a translation
  and an error: the target text is cleared, the status stays ERROR.
\<close>

theorem whitespace_only_partial_clear_witness:
  "handleTranslate [0x20, 0x09]
     (initial_state\<lparr>sourceText := [0x20, 0x09], targetText := ascii ''hola'', status := ERROR,
        error := Some (ascii ''offline'')\<rparr>)
     = (initial_state\<lparr>sourceText := [0x20, 0x09], targetText := [], status := ERROR,
        error := Some (ascii ''offline'')\<rparr>, None)
   \<and> debounceEffect
     (initial_state\<lparr>sourceText := [0x20, 0x09], targetText := ascii ''hola'', status := ERROR,
        error := Some (ascii ''offline'')\<rparr>)
     = (initial_state\<lparr>sourceText := [0x20, 0x09], targetText := ascii ''hola'', status := ERROR,
        error := Some (ascii ''offline'')\<rparr>, Some [0x20, 0x09])"
proof -
  have "[0x20, 0x09 :: 16 word] \<noteq> []" by simp
  moreover have "js_trim [0x20, 0x09] = []"
    by (simp add: js_trim_def is_whitespace_def)
  ultimately show ?thesis
    using whitespace_only_partial_clear [of "[0x20, 0x09]"
        "initial_state\<lparr>sourceText := [0x20, 0x09], targetText := ascii ''hola'', status := ERROR,
          error := Some (ascii ''offline'')\<rparr>"]
    by (simp add: initial_state_def)
qed

subsection \<open>Generations\<close>

text \<open>
  A call that reaches the stream takes the next value of the counter as its
  identifier. No run of a task changes the counter or the identifier of the task.
\<close>

lemma handleTranslate_issue:
  "handleTranslate v st = (st', Some t) \<Longrightarrow>
   streamId t = activeStreamRef st' \<and> activeStreamRef st' = activeStreamRef st + 1
   \<and> awaiting t = AwaitChunk \<and> fullText t = []"
  by (auto simp add: handleTranslate_def Let_def split: if_splits)

lemma handleTranslate_counter:
  "activeStreamRef st \<le> activeStreamRef (fst (handleTranslate v st))"
  by (simp add: handleTranslate_def Let_def)

lemma handleTranslate_step_counter:
  "activeStreamRef (fst (handleTranslate_step a e st t)) = activeStreamRef st"
  by (cases "(a, e, st, t)" rule: handleTranslate_step.cases)
    (simp_all add: handleTranslate_catch_def Let_def)

lemma handleTranslate_resume_counter:
  "activeStreamRef (fst (handleTranslate_resume st t e)) = activeStreamRef st"
  by (simp add: handleTranslate_resume_def handleTranslate_step_counter)

lemma handleTranslate_step_streamId:
  "handleTranslate_step a e st t = (st', Some t') \<Longrightarrow> streamId t' = streamId t"
  by (cases "(a, e, st, t)" rule: handleTranslate_step.cases)
    (auto simp add: handleTranslate_catch_def Let_def split: if_splits)

lemma handleTranslate_resume_streamId:
  "handleTranslate_resume st t e = (st', Some t') \<Longrightarrow> streamId t' = streamId t"
  by (simp add: handleTranslate_resume_def handleTranslate_step_streamId)

text \<open>
  \<open>handleTranslate\<close> is the only writer of the counter: the other handlers and effects
  leave it as it is, so it never decreases.
\<close>

lemma activeStreamRef_kept:
  "activeStreamRef (handleClear st) = activeStreamRef st"
  "activeStreamRef (fst (debounceEffect st)) = activeStreamRef st"
  "activeStreamRef (fst (historyEffect st)) = activeStreamRef st"
  "activeStreamRef (historyTimer st) = activeStreamRef st"
  "activeStreamRef (push v st) = activeStreamRef st"
  "handleUndo st = Some s' \<Longrightarrow> activeStreamRef s' = activeStreamRef st"
  "handleRedo st = Some s' \<Longrightarrow> activeStreamRef s' = activeStreamRef st"
  "activeStreamRef (fst (handleSpeak seen nac v st)) = activeStreamRef st"
  "activeStreamRef (fst (handleSpeak_resume sp st k ev)) = activeStreamRef st"
proof -
  show "activeStreamRef (handleClear st) = activeStreamRef st"
    by (simp add: handleClear_def)
  show "activeStreamRef (fst (debounceEffect st)) = activeStreamRef st"
    by (simp add: debounceEffect_def)
  show "activeStreamRef (fst (historyEffect st)) = activeStreamRef st"
    by (simp add: historyEffect_def)
  show t: "activeStreamRef (historyTimer st) = activeStreamRef st" for st
    by (simp add: historyTimer_def Let_def)
  show "activeStreamRef (push v st) = activeStreamRef st"
    by (simp add: push_def historyEffect_def t)
  show "handleUndo st = Some s' \<Longrightarrow> activeStreamRef s' = activeStreamRef st"
    by (auto simp add: handleUndo_def split: if_splits option.splits)
  show "handleRedo st = Some s' \<Longrightarrow> activeStreamRef s' = activeStreamRef st"
    by (auto simp add: handleRedo_def split: if_splits option.splits)
  show "activeStreamRef (fst (handleSpeak seen nac v st)) = activeStreamRef st"
    by (simp add: handleSpeak_def Let_def split: option.splits sum.splits)
  show "activeStreamRef (fst (handleSpeak_resume sp st k ev)) = activeStreamRef st"
    by (cases "(sp, st, k, ev)" rule: handleSpeak_resume.cases)
      (simp_all split: option.splits sum.splits)
qed

text \<open>
  A task whose identifier is not the current value of the counter returns at its next
  chunk, result or error and leaves the state as it is.
\<close>

lemma stale_resume:
  assumes "streamId t \<noteq> activeStreamRef st"
  shows "awaiting t = AwaitChunk \<longrightarrow> handleTranslate_resume st t (Chunk c) = (st, None)"
    and "handleTranslate_resume st t (Rejected m) = (st, None)"
    and "awaiting t = AwaitResult \<longrightarrow> handleTranslate_resume st t (Fulfilled r) = (st, None)"
    and "e \<noteq> StreamEnd \<longrightarrow> fst (handleTranslate_resume st t e) = st"
  using assms
  by (cases "awaiting t"; cases e;
      simp add: handleTranslate_resume_def handleTranslate_catch_def)+

text \<open>
  The end of the stream is outside the loop and the \<open>catch\<close> block: when the source
  language is not \<open>auto\<close>, the status is set to SUCCESS without a look at the
  counter.
\<close>

lemma stream_end_is_not_guarded:
  "awaiting t = AwaitChunk \<Longrightarrow> taskSourceLang t \<noteq> ascii ''auto'' \<Longrightarrow>
   handleTranslate_resume st t StreamEnd = (st\<lparr>status := SUCCESS\<rparr>, None)"
  by (simp add: handleTranslate_resume_def)

text \<open>
  Claim C1. Let generation G1 be issued by a call of \<open>handleTranslate\<close>, and G2 by a
  later call while G1 is still in flight (the counter never decreases in between, and
  the task of G1 keeps its identifier). Then G2 is greater than G1, and in every state
  from the start of G2 on, a chunk of G1, an error thrown to G1 and the result of G1's
  structured call end the task of G1 without any change of the state: target text,
  detected language, confidence, status and error message stay as they are.
\<close>

theorem stale_generation_is_silent:
  assumes g1: "handleTranslate v1 s0 = (s1, Some t1)"
    and later1: "activeStreamRef s1 \<le> activeStreamRef s"
    and g2: "handleTranslate v2 s = (s2, Some t2)"
    and later2: "activeStreamRef s2 \<le> activeStreamRef s'"
    and same: "streamId t1' = streamId t1"
  shows "streamId t1 < streamId t2
     \<and> (awaiting t1' = AwaitChunk \<longrightarrow> handleTranslate_resume s' t1' (Chunk c) = (s', None))
     \<and> handleTranslate_resume s' t1' (Rejected m) = (s', None)
     \<and> (awaiting t1' = AwaitResult \<longrightarrow> handleTranslate_resume s' t1' (Fulfilled r) = (s', None))
     \<and> (e \<noteq> StreamEnd \<longrightarrow> fst (handleTranslate_resume s' t1' e) = s')"
proof -
  from handleTranslate_issue [OF g1] handleTranslate_issue [OF g2] later1
  have lt: "streamId t1 < streamId t2" and "streamId t2 = activeStreamRef s2"
    by simp_all
  with later2 same have "streamId t1' \<noteq> activeStreamRef s'" by simp
  from stale_resume [OF this] lt show ?thesis by blast
qed

text \<open>
  The theorem at two requests issued from the initial state, the second while the
  first awaits its first chunk.
\<close>

theorem stale_generation_is_silent_witness:
  "\<exists>s1 t1 s2 t2.
     handleTranslate (ascii ''hi'') initial_state = (s1, Some t1)
     \<and> handleTranslate (ascii ''hit'') s1 = (s2, Some t2)
     \<and> streamId t1 < streamId t2
     \<and> handleTranslate_resume s2 t1 (Chunk (ascii ''hola'')) = (s2, None)
     \<and> handleTranslate_resume s2 t1 (Rejected None) = (s2, None)"
proof -
  obtain s1 t1 where g1: "handleTranslate (ascii ''hi'') initial_state = (s1, Some t1)"
    by (simp add: handleTranslate_def js_trim_hi Let_def)
  obtain s2 t2 where g2: "handleTranslate (ascii ''hit'') s1 = (s2, Some t2)"
    by (simp add: handleTranslate_def js_trim_hi Let_def)
  have a: "awaiting t1 = AwaitChunk"
    using g1 by (auto simp add: handleTranslate_def js_trim_hi Let_def)
  from stale_generation_is_silent [OF g1 order_refl g2 order_refl refl,
      of "ascii ''hola''" None
      "\<lparr>translatedText = [], detectedLanguage = [], resultConfidence = 0\<rparr>" StreamEnd] a
  have "streamId t1 < streamId t2
     \<and> handleTranslate_resume s2 t1 (Chunk (ascii ''hola'')) = (s2, None)
     \<and> handleTranslate_resume s2 t1 (Rejected None) = (s2, None)"
    by simp
  with g1 g2 show ?thesis by blast
qed

section \<open>Properties of handleClear\<close>

text \<open>
  Claim C4, at the input where the code departs from it. \<open>handleClear\<close> resets the
  source text, the target text, the detected language, the confidence, the error and
  the status, but it never changes the counter \<open>activeStreamRef\<close>. A translation
  issued for the text \<open>hi\<close> is therefore still the current generation after the
  clear (and after the debounced effect that follows it): its next chunk is
  published into the cleared target text, and an error thrown to it puts the cleared
  state into ERROR.
\<close>

theorem handleClear_keeps_generation:
  "activeStreamRef (handleClear st) = activeStreamRef st
   \<and> (\<exists>s1 t1.
        handleTranslate (ascii ''hi'') (initial_state\<lparr>sourceText := ascii ''hi''\<rparr>) = (s1, Some t1)
        \<and> sourceText (handleClear s1) = [] \<and> targetText (handleClear s1) = []
        \<and> status (handleClear s1) = IDLE \<and> error (handleClear s1) = None
        \<and> debounceEffect (handleClear s1) = (handleClear s1, None)
        \<and> streamId t1 = activeStreamRef (handleClear s1)
        \<and> handleTranslate_resume (handleClear s1) t1 (Chunk (ascii ''hola''))
             = ((handleClear s1)\<lparr>targetText := ascii ''hola''\<rparr>,
                Some (t1\<lparr>fullText := ascii ''hola''\<rparr>))
        \<and> handleTranslate_resume (handleClear s1) t1 (Rejected None)
             = ((handleClear s1)\<lparr>error := Some (ascii ''Translation failed. Please try again.''),
                  status := ERROR\<rparr>, None))"
proof
  show "activeStreamRef (handleClear st) = activeStreamRef st"
    by (simp add: handleClear_def)
next
  obtain s1 t1 where
    g: "handleTranslate (ascii ''hi'') (initial_state\<lparr>sourceText := ascii ''hi''\<rparr>) = (s1, Some t1)"
    by (simp add: handleTranslate_def js_trim_hi Let_def)
  then have t: "streamId t1 = activeStreamRef s1" "awaiting t1 = AwaitChunk" "fullText t1 = []"
    by (auto simp add: handleTranslate_def js_trim_hi Let_def)
  from g have tab: "activeTab s1 = TextTab"
    by (auto simp add: handleTranslate_def js_trim_hi Let_def initial_state_def)
  have "debounceEffect (handleClear s1) = (handleClear s1, None)"
    using tab by (simp add: debounceEffect_def handleClear_def)
  moreover have "handleTranslate_resume (handleClear s1) t1 (Chunk (ascii ''hola''))
             = ((handleClear s1)\<lparr>targetText := ascii ''hola''\<rparr>,
                Some (t1\<lparr>fullText := ascii ''hola''\<rparr>))"
    using t by (simp add: handleTranslate_resume_def handleClear_def Let_def)
  moreover have "handleTranslate_resume (handleClear s1) t1 (Rejected None)
             = ((handleClear s1)\<lparr>error := Some (ascii ''Translation failed. Please try again.''),
                  status := ERROR\<rparr>, None)"
    using t by (simp add: handleTranslate_resume_def handleTranslate_catch_def error_message_def
        handleClear_def)
  ultimately show "\<exists>s1 t1.
        handleTranslate (ascii ''hi'') (initial_state\<lparr>sourceText := ascii ''hi''\<rparr>) = (s1, Some t1)
        \<and> sourceText (handleClear s1) = [] \<and> targetText (handleClear s1) = []
        \<and> status (handleClear s1) = IDLE \<and> error (handleClear s1) = None
        \<and> debounceEffect (handleClear s1) = (handleClear s1, None)
        \<and> streamId t1 = activeStreamRef (handleClear s1)
        \<and> handleTranslate_resume (handleClear s1) t1 (Chunk (ascii ''hola''))
             = ((handleClear s1)\<lparr>targetText := ascii ''hola''\<rparr>,
                Some (t1\<lparr>fullText := ascii ''hola''\<rparr>))
        \<and> handleTranslate_resume (handleClear s1) t1 (Rejected None)
             = ((handleClear s1)\<lparr>error := Some (ascii ''Translation failed. Please try again.''),
                  status := ERROR\<rparr>, None)"
    using g t by (intro exI [of _ s1] exI [of _ t1]) (simp add: handleClear_def)
qed

section \<open>Properties of the edit history\<close>

subsection \<open>The timer and the invariant\<close>

lemma js_slice0_take:
  "0 \<le> e \<Longrightarrow> e \<le> int (length xs) \<Longrightarrow> js_slice0 xs e = take (nat e) xs"
  by (simp add: js_slice0_def Let_def min_def)

lemma length_js_slice0:
  "0 \<le> e \<Longrightarrow> e \<le> int (length xs) \<Longrightarrow> length (js_slice0 xs e) = nat e"
  by (simp add: js_slice0_take)

lemma historyEffect_history:
  "history (fst (historyEffect st)) = history st \<and>
   historyIndex (fst (historyEffect st)) = historyIndex st \<and>
   sourceText (fst (historyEffect st)) = sourceText st"
  by (simp add: historyEffect_def)

lemma historyTimer_inv:
  assumes "history_inv st"
  shows "history_inv (historyTimer st)"
proof (cases "Some (sourceText st) = js_index (history st) (historyIndex st)")
  case True
  then show ?thesis using assms by (simp add: historyTimer_def)
next
  case False
  define h where "h = js_slice0 (history st) (historyIndex st + 1) @ [sourceText st]"
  define h' where "h' = (if 50 < length h then tl h else h)"
  from assms have "length (js_slice0 (history st) (historyIndex st + 1))
      = nat (historyIndex st + 1)"
    by (intro length_js_slice0) (simp_all add: history_inv_def)
  then have "length h = nat (historyIndex st + 1) + 1"
    by (simp add: h_def)
  with assms have "1 \<le> length h" "length h \<le> 51"
    unfolding history_inv_def by linarith+
  then have "1 \<le> length h'" "length h' \<le> 50"
    by (auto simp add: h'_def)
  moreover have "historyTimer st = st\<lparr>history := h', historyIndex := int (length h') - 1\<rparr>"
    using False by (simp add: historyTimer_def Let_def h_def h'_def)
  ultimately show ?thesis by (cases h') (simp_all add: history_inv_def)
qed

lemma historyTimer_current:
  "js_index (history (historyTimer st)) (historyIndex (historyTimer st))
     = Some (sourceText (historyTimer st))"
proof (cases "Some (sourceText st) = js_index (history st) (historyIndex st)")
  case True
  then show ?thesis by (simp add: historyTimer_def)
next
  case False
  define h where "h = js_slice0 (history st) (historyIndex st + 1) @ [sourceText st]"
  define h' where "h' = (if 50 < length h then tl h else h)"
  have h: "h \<noteq> []" "last h = sourceText st" by (simp_all add: h_def)
  have h': "h' \<noteq> [] \<and> last h' = sourceText st"
  proof (cases "50 < length h")
    case True
    then have "2 \<le> length h" by simp
    then obtain a b r where "h = a # b # r"
      by (cases h; cases "tl h") auto
    with h(2) True show ?thesis by (simp add: h'_def)
  next
    case False
    with h show ?thesis by (simp add: h'_def)
  qed
  have "historyTimer st = st\<lparr>history := h', historyIndex := int (length h') - 1\<rparr>"
    using False by (simp add: historyTimer_def Let_def h_def h'_def)
  moreover have "js_index h' (int (length h') - 1) = Some (last h')"
    using h' by (cases h' rule: rev_cases) (simp_all add: js_index_def)
  ultimately show ?thesis using h' by simp
qed

lemma historyTimer_sourceText: "sourceText (historyTimer st) = sourceText st"
  by (simp add: historyTimer_def Let_def)

lemma historyTimer_flag: "isInternalChange (historyTimer st) = isInternalChange st"
  by (simp add: historyTimer_def Let_def)

lemma push_inv: "history_inv st \<Longrightarrow> history_inv (push txt st)"
proof -
  assume inv: "history_inv st"
  then have "history_inv (st\<lparr>sourceText := txt\<rparr>)" by (simp add: history_inv_def)
  then show ?thesis
    by (auto simp add: push_def historyEffect_def intro: historyTimer_inv)
      (simp add: history_inv_def)
qed

lemma push_current:
  "\<not> isInternalChange st \<Longrightarrow>
   js_index (history (push txt st)) (historyIndex (push txt st)) = Some txt
   \<and> sourceText (push txt st) = txt \<and> \<not> isInternalChange (push txt st)"
  using historyTimer_current [of "st\<lparr>sourceText := txt\<rparr>"]
  by (simp add: push_def historyEffect_def historyTimer_sourceText historyTimer_flag)

lemma initial_state_inv: "history_inv initial_state \<and> \<not> isInternalChange initial_state"
  by (simp add: history_inv_def initial_state_def)

lemma pushes_inv:
  "history_inv st \<Longrightarrow> \<not> isInternalChange st \<Longrightarrow>
   history_inv (foldl (\<lambda>s txt. push txt s) st txts)
   \<and> \<not> isInternalChange (foldl (\<lambda>s txt. push txt s) st txts)"
proof (induction txts arbitrary: st)
  case Nil
  then show ?case by simp
next
  case (Cons x xs)
  from Cons.prems have "history_inv (push x st)" "\<not> isInternalChange (push x st)"
    by (simp_all add: push_inv push_current)
  from Cons.IH [OF this] show ?case by simp
qed

text \<open>
  At 50 snapshots with the cursor on the last one, a push drops the oldest snapshot
  and leaves the cursor on the new text.
\<close>

lemma push_at_capacity:
  assumes "length (history st) = 50" and "historyIndex st = 49" and "\<not> isInternalChange st"
    and "Some v \<noteq> js_index (history st) 49"
  shows "history (push v st) = tl (history st) @ [v] \<and> historyIndex (push v st) = 49"
proof -
  from assms(1) have "history st \<noteq> []" by auto
  then show ?thesis using assms
    by (simp add: push_def historyEffect_def historyTimer_def js_slice0_def Let_def)
qed

text \<open>
  Claim C2. From a state that satisfies the invariant and is not replaying the history
  (the initial state is one), after every sequence of pushes the history has at most 50
  entries, the cursor is a valid index, and after at least one push the entry at the
  cursor is the current text, the text pushed last.
\<close>

theorem push_sequence_invariant:
  assumes "history_inv st" and "\<not> isInternalChange st"
  shows "length (history (foldl (\<lambda>s txt. push txt s) st txts)) \<le> 50
     \<and> 0 \<le> historyIndex (foldl (\<lambda>s txt. push txt s) st txts)
     \<and> historyIndex (foldl (\<lambda>s txt. push txt s) st txts)
          < int (length (history (foldl (\<lambda>s txt. push txt s) st txts)))
     \<and> (txts \<noteq> [] \<longrightarrow>
          sourceText (foldl (\<lambda>s txt. push txt s) st txts) = last txts
          \<and> js_index (history (foldl (\<lambda>s txt. push txt s) st txts))
               (historyIndex (foldl (\<lambda>s txt. push txt s) st txts)) = Some (last txts))"
proof -
  have inv: "history_inv (foldl (\<lambda>s txt. push txt s) st txts)"
    using pushes_inv [OF assms] by simp
  have cur: "txts \<noteq> [] \<longrightarrow>
          sourceText (foldl (\<lambda>s txt. push txt s) st txts) = last txts
          \<and> js_index (history (foldl (\<lambda>s txt. push txt s) st txts))
               (historyIndex (foldl (\<lambda>s txt. push txt s) st txts)) = Some (last txts)"
  proof (cases txts rule: rev_cases)
    case Nil
    then show ?thesis by simp
  next
    case (snoc pre x)
    have "\<not> isInternalChange (foldl (\<lambda>s txt. push txt s) st pre)"
      using pushes_inv [OF assms] by simp
    from push_current [OF this, of x] show ?thesis using snoc by simp
  qed
  from inv cur show ?thesis by (simp add: history_inv_def)
qed

text \<open>
  The theorem from the initial state, at the texts \<open>a\<close>, \<open>ab\<close>, \<open>ab\<close>: the
  third push finds its text at the cursor and records nothing.
\<close>

theorem push_sequence_invariant_witness:
  "history (foldl (\<lambda>s txt. push txt s) initial_state [ascii ''a'', ascii ''ab'', ascii ''ab''])
     = [[], ascii ''a'', ascii ''ab'']
   \<and> historyIndex (foldl (\<lambda>s txt. push txt s) initial_state [ascii ''a'', ascii ''ab'', ascii ''ab'']) = 2
   \<and> length (history (foldl (\<lambda>s txt. push txt s) initial_state [ascii ''a'', ascii ''ab'', ascii ''ab''])) \<le> 50
   \<and> js_index (history (foldl (\<lambda>s txt. push txt s) initial_state [ascii ''a'', ascii ''ab'', ascii ''ab'']))
        (historyIndex (foldl (\<lambda>s txt. push txt s) initial_state [ascii ''a'', ascii ''ab'', ascii ''ab'']))
      = Some (ascii ''ab'')"
  using push_sequence_invariant [of initial_state "[ascii ''a'', ascii ''ab'', ascii ''ab'']"]
  by (simp add: initial_state_def history_inv_def push_def historyEffect_def historyTimer_def
      js_index_def js_slice0_def ascii_def Let_def)

subsection \<open>Undo and redo\<close>

lemma handleUndo_defined: "history_inv st \<Longrightarrow> \<exists>s'. handleUndo st = Some s'"
  by (simp add: handleUndo_def js_index_def history_inv_def)

lemma handleRedo_defined: "history_inv st \<Longrightarrow> \<exists>s'. handleRedo st = Some s'"
  by (simp add: handleRedo_def js_index_def history_inv_def)

text \<open>
  Undo and then redo, each followed by the run of the history effect it causes, bring
  back the cursor and the entries, and show the entry at the cursor.
\<close>

lemma undo_then_redo_entry:
  assumes "history_inv st" and pos: "0 < historyIndex st"
  shows "\<exists>s1 s2. handleUndo st = Some s1
              \<and> Some (sourceText s1) = js_index (history st) (historyIndex st - 1)
              \<and> historyIndex s1 = historyIndex st - 1
              \<and> handleRedo (fst (historyEffect s1)) = Some s2
              \<and> Some (sourceText s2) = js_index (history st) (historyIndex st)
              \<and> fst (historyEffect s2)
                   = st\<lparr>sourceText := sourceText s2, isInternalChange := False\<rparr>"
proof -
  define s1 where "s1 = st\<lparr>isInternalChange := True, historyIndex := historyIndex st - 1,
      sourceText := history st ! nat (historyIndex st - 1)\<rparr>"
  define s2 where "s2 = st\<lparr>isInternalChange := True,
      sourceText := history st ! nat (historyIndex st)\<rparr>"
  from assms have u: "handleUndo st = Some s1"
    by (simp add: handleUndo_def js_index_def history_inv_def s1_def)
  from assms have e1: "fst (historyEffect s1) = s1\<lparr>isInternalChange := False\<rparr>"
    by (simp add: historyEffect_def s1_def)
  from assms have r: "handleRedo (s1\<lparr>isInternalChange := False\<rparr>) = Some s2"
    by (simp add: handleRedo_def js_index_def history_inv_def s1_def s2_def)
  have e2: "fst (historyEffect s2) = st\<lparr>sourceText := sourceText s2, isInternalChange := False\<rparr>"
    by (simp add: historyEffect_def s2_def)
  from assms have "Some (sourceText s1) = js_index (history st) (historyIndex st - 1)"
    "Some (sourceText s2) = js_index (history st) (historyIndex st)"
    "historyIndex s1 = historyIndex st - 1"
    by (simp_all add: js_index_def history_inv_def s1_def s2_def)
  with u e1 r e2 show ?thesis
    by (intro exI [of _ s1] exI [of _ s2]) simp
qed

text \<open>
  Claim C3, as the code has it. The handlers return nothing; what an operation of the
  specification returns is the text the handler puts into \<open>sourceText\<close>, and a no-op
  is a call that leaves the state as it is. In a state that satisfies the invariant and
  whose source text is the entry at the cursor (no edit is waiting for the end of its
  quiet period), with the cursor above 0: undo moves the cursor down by one and shows
  the entry there, and redo after it restores exactly the text that was current before
  the undo, with the cursor and the entries. With the cursor at 0 undo changes nothing,
  and with the cursor at the last entry redo changes nothing.
\<close>

theorem undo_then_redo:
  assumes inv: "history_inv st"
    and committed: "js_index (history st) (historyIndex st) = Some (sourceText st)"
  shows "(0 < historyIndex st \<longrightarrow>
           (\<exists>s1 s2. handleUndo st = Some s1
              \<and> Some (sourceText s1) = js_index (history st) (historyIndex st - 1)
              \<and> historyIndex s1 = historyIndex st - 1
              \<and> handleRedo (fst (historyEffect s1)) = Some s2
              \<and> sourceText s2 = sourceText st
              \<and> fst (historyEffect s2) = st\<lparr>isInternalChange := False\<rparr>))
       \<and> (historyIndex st = 0 \<longrightarrow> handleUndo st = Some st)
       \<and> (historyIndex st = int (length (history st)) - 1 \<longrightarrow> handleRedo st = Some st)"
proof (intro conjI impI)
  assume pos: "0 < historyIndex st"
  from undo_then_redo_entry [OF inv pos] obtain s1 s2 where
    a: "handleUndo st = Some s1"
      "Some (sourceText s1) = js_index (history st) (historyIndex st - 1)"
      "historyIndex s1 = historyIndex st - 1"
      "handleRedo (fst (historyEffect s1)) = Some s2"
    and b: "Some (sourceText s2) = js_index (history st) (historyIndex st)"
    and c: "fst (historyEffect s2) = st\<lparr>sourceText := sourceText s2, isInternalChange := False\<rparr>"
    by blast
  from b committed have d: "sourceText s2 = sourceText st" by simp
  with c have "fst (historyEffect s2) = st\<lparr>isInternalChange := False\<rparr>" by simp
  with a d show "\<exists>s1 s2. handleUndo st = Some s1
              \<and> Some (sourceText s1) = js_index (history st) (historyIndex st - 1)
              \<and> historyIndex s1 = historyIndex st - 1
              \<and> handleRedo (fst (historyEffect s1)) = Some s2
              \<and> sourceText s2 = sourceText st
              \<and> fst (historyEffect s2) = st\<lparr>isInternalChange := False\<rparr>"
    by blast
next
  assume "historyIndex st = 0"
  then show "handleUndo st = Some st" by (simp add: handleUndo_def)
next
  assume "historyIndex st = int (length (history st)) - 1"
  then show "handleRedo st = Some st" by (simp add: handleRedo_def)
qed

text \<open>
  The theorem at the state with three snapshots (undo shows \<open>a\<close>, redo restores
  \<open>ab\<close> and the state; redo alone changes nothing) and at the initial state (undo
  changes nothing).
\<close>

theorem undo_then_redo_witness:
  "history_inv example_history
   \<and> js_index (history example_history) (historyIndex example_history)
        = Some (sourceText example_history)
   \<and> (\<exists>s1 s2. handleUndo example_history = Some s1 \<and> sourceText s1 = ascii ''a''
        \<and> handleRedo (fst (historyEffect s1)) = Some s2
        \<and> sourceText s2 = ascii ''ab''
        \<and> fst (historyEffect s2) = example_history)
   \<and> handleRedo example_history = Some example_history
   \<and> handleUndo initial_state = Some initial_state"
proof -
  have inv: "history_inv example_history"
    by (simp add: history_inv_def example_history_def)
  have com: "js_index (history example_history) (historyIndex example_history)
        = Some (sourceText example_history)"
    by (simp add: example_history_def js_index_def)
  have inv0: "history_inv initial_state"
    by (simp add: history_inv_def initial_state_def)
  have com0: "js_index (history initial_state) (historyIndex initial_state)
        = Some (sourceText initial_state)"
    by (simp add: initial_state_def js_index_def)
  have pos: "0 < historyIndex example_history"
    by (simp add: example_history_def)
  from undo_then_redo [OF inv com] pos obtain s1 s2 where
    "handleUndo example_history = Some s1"
    "Some (sourceText s1) = js_index (history example_history) (historyIndex example_history - 1)"
    "handleRedo (fst (historyEffect s1)) = Some s2"
    "sourceText s2 = sourceText example_history"
    "fst (historyEffect s2) = example_history\<lparr>isInternalChange := False\<rparr>"
    by blast
  moreover have "js_index (history example_history) (historyIndex example_history - 1) = Some (ascii ''a'')"
    "sourceText example_history = ascii ''ab''"
    by (simp_all add: example_history_def js_index_def)
  moreover have "example_history\<lparr>isInternalChange := False\<rparr> = example_history"
    by (simp add: example_history_def initial_state_def)
  ultimately have "\<exists>s1 s2. handleUndo example_history = Some s1 \<and> sourceText s1 = ascii ''a''
        \<and> handleRedo (fst (historyEffect s1)) = Some s2
        \<and> sourceText s2 = ascii ''ab''
        \<and> fst (historyEffect s2) = example_history"
    by (intro exI [of _ s1] exI [of _ s2]) auto
  moreover from undo_then_redo [OF inv com] have "handleRedo example_history = Some example_history"
    by (simp add: example_history_def)
  moreover from undo_then_redo [OF inv0 com0] have "handleUndo initial_state = Some initial_state"
    by (simp add: initial_state_def)
  ultimately show ?thesis using inv com by blast
qed

text \<open>
  Claim C3 as stated fails in the state with a pending edit: the text \<open>ab\<close> is not
  an entry yet, the history timer is running. Undo shows the empty text, and the run
  of the history effect that follows starts no timer, so \<open>ab\<close> is never recorded;
  redo then shows the entry \<open>a\<close>, not the text \<open>ab\<close> that was current before the
  undo.
\<close>

lemma pending_edit_eq:
  "pending_edit = initial_state\<lparr>sourceText := ascii ''ab'', history := [[], ascii ''a''],
     historyIndex := 1\<rparr>"
  by (simp add: pending_edit_def push_def historyEffect_def historyTimer_def initial_state_def
      js_index_def js_slice0_def ascii_def Let_def)

theorem undo_then_redo_pending_counterexample:
  "history_inv pending_edit
   \<and> history pending_edit = [[], ascii ''a''] \<and> historyIndex pending_edit = 1
   \<and> sourceText pending_edit = ascii ''ab''
   \<and> historyEffect pending_edit = (pending_edit, True)
   \<and> (\<exists>s1 s2. handleUndo pending_edit = Some s1 \<and> sourceText s1 = []
         \<and> historyEffect s1 = (s1\<lparr>isInternalChange := False\<rparr>, False)
         \<and> handleRedo (s1\<lparr>isInternalChange := False\<rparr>) = Some s2
         \<and> historyEffect s2 = (s2\<lparr>isInternalChange := False\<rparr>, False)
         \<and> sourceText (s2\<lparr>isInternalChange := False\<rparr>) = ascii ''a''
         \<and> history (s2\<lparr>isInternalChange := False\<rparr>) = [[], ascii ''a''])
   \<and> ascii ''a'' \<noteq> ascii ''ab''"
proof -
  let ?s1 = "pending_edit\<lparr>isInternalChange := True, historyIndex := 0, sourceText := []\<rparr>"
  let ?s2 = "pending_edit\<lparr>isInternalChange := True, historyIndex := 1,
      sourceText := ascii ''a''\<rparr>"
  have u: "handleUndo pending_edit = Some ?s1"
    by (simp add: pending_edit_eq handleUndo_def js_index_def)
  have r: "handleRedo (?s1\<lparr>isInternalChange := False\<rparr>) = Some ?s2"
    by (simp add: pending_edit_eq handleRedo_def js_index_def)
  have "history_inv pending_edit" "history pending_edit = [[], ascii ''a'']"
    "historyIndex pending_edit = 1" "sourceText pending_edit = ascii ''ab''"
    "historyEffect pending_edit = (pending_edit, True)"
    by (simp_all add: pending_edit_eq history_inv_def historyEffect_def initial_state_def)
  moreover have "\<exists>s1 s2. handleUndo pending_edit = Some s1 \<and> sourceText s1 = []
         \<and> historyEffect s1 = (s1\<lparr>isInternalChange := False\<rparr>, False)
         \<and> handleRedo (s1\<lparr>isInternalChange := False\<rparr>) = Some s2
         \<and> historyEffect s2 = (s2\<lparr>isInternalChange := False\<rparr>, False)
         \<and> sourceText (s2\<lparr>isInternalChange := False\<rparr>) = ascii ''a''
         \<and> history (s2\<lparr>isInternalChange := False\<rparr>) = [[], ascii ''a'']"
    using u r
    by (intro exI [of _ ?s1] exI [of _ ?s2]) (simp add: historyEffect_def pending_edit_eq)
  moreover have "ascii ''a'' \<noteq> ascii ''ab''"
    by (simp add: ascii_def)
  ultimately show ?thesis by blast
qed

text \<open>
  Claim C10. Where undo or redo applies, the new state differs from the old one in
  the cursor, the source text and the flag \<open>isInternalChange\<close> only: the entries of
  the history are the same. The flag is set, so the run of the history effect that
  follows clears it and starts no timer: the replayed text is not recorded. Where the
  handler does not apply, the state is unchanged.
\<close>

theorem undo_redo_frame:
  "(handleUndo st = Some s' \<longrightarrow>
      history s' = history st
      \<and> (0 < historyIndex st \<longrightarrow>
           s' = st\<lparr>isInternalChange := True, historyIndex := historyIndex s',
                    sourceText := sourceText s'\<rparr>
           \<and> historyEffect s' = (s'\<lparr>isInternalChange := False\<rparr>, False)
           \<and> history (fst (historyEffect s')) = history st)
      \<and> (\<not> 0 < historyIndex st \<longrightarrow> s' = st))
   \<and> (handleRedo st = Some s' \<longrightarrow>
      history s' = history st
      \<and> (historyIndex st < int (length (history st)) - 1 \<longrightarrow>
           s' = st\<lparr>isInternalChange := True, historyIndex := historyIndex s',
                    sourceText := sourceText s'\<rparr>
           \<and> historyEffect s' = (s'\<lparr>isInternalChange := False\<rparr>, False)
           \<and> history (fst (historyEffect s')) = history st)
      \<and> (\<not> historyIndex st < int (length (history st)) - 1 \<longrightarrow> s' = st))"
  by (auto simp add: handleUndo_def handleRedo_def historyEffect_def
      split: if_splits option.splits)

text \<open>
  The theorem at the state with three snapshots: an undo with the cursor at 2 and a
  redo with the cursor at 0.
\<close>

theorem undo_redo_frame_witness:
  "(\<exists>s'. handleUndo example_history = Some s' \<and> history s' = history example_history
      \<and> historyEffect s' = (s'\<lparr>isInternalChange := False\<rparr>, False))
   \<and> (\<exists>s'. handleRedo (example_history\<lparr>historyIndex := 0\<rparr>) = Some s'
      \<and> history s' = history example_history
      \<and> historyEffect s' = (s'\<lparr>isInternalChange := False\<rparr>, False))"
proof -
  obtain u where u: "handleUndo example_history = Some u"
    by (simp add: handleUndo_def example_history_def js_index_def)
  obtain r where r: "handleRedo (example_history\<lparr>historyIndex := 0\<rparr>) = Some r"
    by (simp add: handleRedo_def example_history_def js_index_def)
  from undo_redo_frame [of example_history u] u
  have "history u = history example_history
      \<and> historyEffect u = (u\<lparr>isInternalChange := False\<rparr>, False)"
    by (simp add: example_history_def)
  moreover from undo_redo_frame [of "example_history\<lparr>historyIndex := 0\<rparr>" r] r
  have "history r = history example_history
      \<and> historyEffect r = (r\<lparr>isInternalChange := False\<rparr>, False)"
    by (simp add: example_history_def)
  ultimately show ?thesis using u r by blast
qed

section \<open>Properties of the PCM codec\<close>

subsection \<open>The loops and the byte order\<close>

lemma encode_loop_eq:
  "length int16 = length data \<Longrightarrow> i \<le> length data \<Longrightarrow>
   encode_loop data i int16 =
     take i int16 @ map (\<lambda>s. ToInt16 (times_number s 32768)) (drop i data)"
proof (induction data i int16 rule: encode_loop.induct)
  case (1 data i int16)
  show ?case
  proof (cases "i < length data")
    case True
    have "encode_loop data i int16 =
        encode_loop data (Suc i) (int16[i := ToInt16 (times_number (data ! i) 32768)])"
      using True by (subst encode_loop.simps) simp
    also have "\<dots> = take (Suc i) (int16[i := ToInt16 (times_number (data ! i) 32768)])
        @ map (\<lambda>s. ToInt16 (times_number s 32768)) (drop (Suc i) data)"
      using "1.IH" [OF True] "1.prems" True by simp
    also have "\<dots> = take i int16 @ map (\<lambda>s. ToInt16 (times_number s 32768)) (drop i data)"
      using True "1.prems" by (simp add: take_Suc_conv_app_nth Cons_nth_drop_Suc [symmetric])
    finally show ?thesis .
  next
    case False
    then show ?thesis using "1.prems" by (subst encode_loop.simps) simp
  qed
qed

lemma decode_loop_eq:
  "length channelData = length dataInt16 \<Longrightarrow> i \<le> length dataInt16 \<Longrightarrow>
   decode_loop dataInt16 i channelData =
     take i channelData @ map (\<lambda>w. real_of_int (sint w) / 32768) (drop i dataInt16)"
proof (induction dataInt16 i channelData rule: decode_loop.induct)
  case (1 d i cd)
  show ?case
  proof (cases "i < length d")
    case True
    have "decode_loop d i cd = decode_loop d (Suc i) (cd[i := real_of_int (sint (d ! i)) / 32768])"
      using True by (subst decode_loop.simps) simp
    also have "\<dots> = take (Suc i) (cd[i := real_of_int (sint (d ! i)) / 32768])
        @ map (\<lambda>w. real_of_int (sint w) / 32768) (drop (Suc i) d)"
      using "1.IH" [OF True] "1.prems" True by simp
    also have "\<dots> = take i cd @ map (\<lambda>w. real_of_int (sint w) / 32768) (drop i d)"
      using True "1.prems" by (simp add: take_Suc_conv_app_nth Cons_nth_drop_Suc [symmetric])
    finally show ?thesis .
  next
    case False
    then show ?thesis using "1.prems" by (subst decode_loop.simps) simp
  qed
qed

lemma le_bytes_assemble:
  "push_bit 8 (ucast (ucast (drop_bit 8 w) :: byte)) OR ucast (ucast w :: byte) = (w :: int16)"
  by (rule bit_word_eqI) (auto simp add: bit_simps)

lemma int16_view_bytes: "int16_view (Uint8Array_of_buffer ws) = ws"
  by (induction ws) (simp_all add: Uint8Array_of_buffer_def le_bytes_def le_bytes_assemble)

lemma uint16_bounds: "0 \<le> uint (w :: int16) \<and> uint w < 65536"
  using uint_bounded [of w] by simp

lemma uint8_bounds: "0 \<le> uint (b :: byte) \<and> uint b < 256"
  using uint_bounded [of b] by simp

lemma uint_le_bytes:
  "uint (ucast w :: byte) + 256 * uint (ucast (drop_bit 8 w) :: byte) = uint (w :: int16)"
proof -
  have lo: "uint (ucast w :: byte) = uint w mod 256"
    by (simp add: unsigned_ucast_eq take_bit_eq_mod)
  have "uint (ucast (drop_bit 8 w) :: byte) = take_bit 8 (drop_bit 8 (take_bit 16 (uint w)))"
    by (simp only: unsigned_ucast_eq unsigned_drop_bit_eq) simp
  also have "take_bit 16 (uint w) = uint w"
    using uint16_bounds [of w] by (simp add: take_bit_int_eq_self)
  also have "take_bit 8 (drop_bit 8 (uint w)) = (uint w div 256) mod 256"
    by (simp add: take_bit_eq_mod drop_bit_eq_div)
  also have "\<dots> = uint w div 256"
    using uint16_bounds [of w] by (intro mod_pos_pos_trivial) arith+
  finally have hi: "uint (ucast (drop_bit 8 w) :: byte) = uint w div 256" .
  show ?thesis unfolding lo hi by (simp add: mult.commute)
qed

lemma uint_assemble:
  "uint (push_bit 8 (ucast hi) OR ucast lo :: int16) = uint (lo :: byte) + 256 * uint (hi :: byte)"
proof -
  have "(push_bit 8 (ucast hi) OR ucast lo :: int16) = push_bit 8 (ucast hi) + ucast lo"
    by (rule disjunctive_add [symmetric]) (auto simp add: bit_simps dest: bit_imp_le_length)
  then have "uint (push_bit 8 (ucast hi) OR ucast lo :: int16)
      = (uint (push_bit 8 (ucast hi) :: int16) + uint (ucast lo :: int16)) mod 65536"
    by (simp add: uint_word_ariths)
  moreover have "uint (ucast lo :: int16) = uint lo"
    by (simp add: uint_up_ucast is_up)
  moreover have "uint (push_bit 8 (ucast hi) :: int16) = 256 * uint hi"
  proof -
    have "uint (push_bit 8 (ucast hi) :: int16) = take_bit 16 (push_bit 8 (uint (ucast hi :: int16)))"
      by (simp only: unsigned_push_bit_eq) simp
    also have "uint (ucast hi :: int16) = uint hi"
      by (simp add: uint_up_ucast is_up)
    also have "take_bit 16 (push_bit 8 (uint hi)) = (256 * uint hi) mod 65536"
      by (simp add: take_bit_eq_mod push_bit_eq_mult mult.commute)
    also have "\<dots> = 256 * uint hi"
      using uint8_bounds [of hi] by (intro mod_pos_pos_trivial) auto
    finally show ?thesis .
  qed
  ultimately show ?thesis using uint8_bounds [of hi] uint8_bounds [of lo] by simp
qed

lemma sint16_uint: "sint (w :: int16) = (if uint w < 32768 then uint w else uint w - 65536)"
proof -
  have s: "sint w = (uint w + 32768) mod 65536 - 32768"
    by (simp add: sint_uint signed_take_bit_eq_take_bit_shift take_bit_eq_mod)
  show ?thesis
  proof (cases "uint w < 32768")
    case True
    then have "(uint w + 32768) mod 65536 = uint w + 32768"
      using uint16_bounds [of w] by (intro mod_pos_pos_trivial) auto
    then show ?thesis using s True by simp
  next
    case False
    have "uint w + 32768 = (uint w - 32768) + 65536"
      by arith
    then have "(uint w + 32768) mod 65536 = ((uint w - 32768) + 65536) mod 65536"
      by (rule arg_cong)
    also have "\<dots> = (uint w - 32768) mod 65536"
      by (simp only: mod_add_self2)
    also have "\<dots> = uint w - 32768"
      using False uint16_bounds [of w] by (intro mod_pos_pos_trivial) auto
    finally show ?thesis using s False by simp
  qed
qed

lemma floatToPCM16_eq:
  "floatToPCM16 data = concat (map (\<lambda>s. le_bytes (ToInt16 (times_number s 32768))) data)"
  by (simp add: floatToPCM16_def Uint8Array_of_buffer_def encode_loop_eq comp_def)

lemma length_concat_le_bytes: "length (concat (map le_bytes ws)) = 2 * length ws"
  by (induction ws) (simp_all add: le_bytes_def)

lemma nth_concat_le_bytes:
  "i < length ws \<Longrightarrow>
   concat (map le_bytes ws) ! (2 * i) = ucast (ws ! i) \<and>
   concat (map le_bytes ws) ! (2 * i + 1) = ucast (drop_bit 8 (ws ! i))"
proof (induction ws arbitrary: i)
  case Nil
  then show ?case by simp
next
  case (Cons w ws)
  show ?case
  proof (cases i)
    case 0
    then show ?thesis by (simp add: le_bytes_def)
  next
    case (Suc j)
    with Cons.prems have "j < length ws" by simp
    from Cons.IH [OF this] show ?thesis using Suc by (simp add: le_bytes_def)
  qed
qed

lemma length_int16_view: "length (int16_view buffer) = length buffer div 2"
  by (induction buffer rule: int16_view.induct) simp_all

lemma nth_int16_view:
  "k < length buffer div 2 \<Longrightarrow>
   int16_view buffer ! k = push_bit 8 (ucast (buffer ! (2 * k + 1))) OR ucast (buffer ! (2 * k))"
proof (induction buffer arbitrary: k rule: int16_view.induct)
  case (1 lo hi rest)
  then show ?case by (cases k) simp_all
qed simp_all

lemma foldl_binary:
  "foldl (\<lambda>binary b. binary @ [f b]) acc bytes = acc @ map f bytes"
  by (induction bytes arbitrary: acc) simp_all

lemma truncate_near:
  "\<bar>real_of_int (js_truncate y) - y\<bar> < 1"
  unfolding js_truncate_def by (auto simp: abs_if) linarith+

lemma truncate_bounds:
  "- 32768 \<le> y \<Longrightarrow> y < 32768 \<Longrightarrow> - 32768 \<le> js_truncate y \<and> js_truncate y < 32768"
  unfolding js_truncate_def by (auto) linarith+

lemma sint_word_of_int16:
  "- 32768 \<le> t \<Longrightarrow> t < 32768 \<Longrightarrow> sint (word_of_int t :: int16) = t"
  by (simp add: sint_sbintrunc' signed_take_bit_int_eq_self)

subsection \<open>Encoding\<close>

text \<open>
  Claim C5, as the code has it. The bytes of \<open>createAudioBlob\<close> are two per sample, low
  byte first. For a finite sample \<open>s\<close> they hold \<open>s \<times> 32768\<close> truncated towards zero
  (not rounded) and reduced modulo \<open>2^16\<close>: nothing is clamped, so a product outside
  \<open>[-32768, 32767]\<close> wraps around. NaN and the infinities are stored as 0. The blob
  carries \<open>btoa\<close> of the binary string of these bytes.
\<close>

theorem floatToPCM16_truncates:
  "length (floatToPCM16 data) = 2 * length data \<and>
   (\<forall>i<length data.
      case data ! i of
        Finite s \<Rightarrow>
          uint (floatToPCM16 data ! (2 * i)) + 256 * uint (floatToPCM16 data ! (2 * i + 1))
            = js_truncate (s * 32768) mod 65536
      | _ \<Rightarrow> floatToPCM16 data ! (2 * i) = 0 \<and> floatToPCM16 data ! (2 * i + 1) = 0) \<and>
   blobData (createAudioBlob btoa data) = btoa (map ucast (floatToPCM16 data))"
proof (intro conjI allI impI)
  have "floatToPCM16 data
      = concat (map le_bytes (map (\<lambda>s. ToInt16 (times_number s 32768)) data))"
    by (simp add: floatToPCM16_eq comp_def)
  then show "length (floatToPCM16 data) = 2 * length data"
    by (simp only: length_concat_le_bytes length_map)
next
  fix i assume i: "i < length data"
  let ?ws = "map (\<lambda>s. ToInt16 (times_number s 32768)) data"
  have eq: "floatToPCM16 data = concat (map le_bytes ?ws)"
    by (simp add: floatToPCM16_eq comp_def)
  from i have "i < length ?ws" by simp
  from nth_concat_le_bytes [OF this]
  have b: "floatToPCM16 data ! (2 * i) = ucast (ToInt16 (times_number (data ! i) 32768))"
    "floatToPCM16 data ! (2 * i + 1) = ucast (drop_bit 8 (ToInt16 (times_number (data ! i) 32768)))"
    using i unfolding eq by simp_all
  show "case data ! i of
        Finite s \<Rightarrow>
          uint (floatToPCM16 data ! (2 * i)) + 256 * uint (floatToPCM16 data ! (2 * i + 1))
            = js_truncate (s * 32768) mod 65536
      | _ \<Rightarrow> floatToPCM16 data ! (2 * i) = 0 \<and> floatToPCM16 data ! (2 * i + 1) = 0"
  proof (cases "data ! i")
    case (Finite s)
    then show ?thesis
      unfolding b by (simp add: uint_le_bytes uint_word_of_int)
  qed (use b in simp_all)
next
  show "blobData (createAudioBlob btoa data) = btoa (map ucast (floatToPCM16 data))"
    by (simp add: createAudioBlob_def encode_def foldl_binary)
qed

text \<open>
  The theorem at the samples \<open>0.5\<close>, \<open>1.0\<close> and NaN: the sample \<open>1.0\<close> is stored as
  \<open>32768 mod 2^16\<close>, which reads back as \<open>-32768\<close>.
\<close>

theorem floatToPCM16_truncates_witness:
  "length (floatToPCM16 [Finite (1 / 2), Finite 1, NaN]) = 6 \<and>
   uint (floatToPCM16 [Finite (1 / 2), Finite 1, NaN] ! 2)
     + 256 * uint (floatToPCM16 [Finite (1 / 2), Finite 1, NaN] ! 3) = 32768 \<and>
   floatToPCM16 [Finite (1 / 2), Finite 1, NaN] ! 4 = 0"
  using floatToPCM16_truncates [of "[Finite (1 / 2), Finite 1, NaN]", THEN conjunct1]
    floatToPCM16_truncates [of "[Finite (1 / 2), Finite 1, NaN]", THEN conjunct2, THEN conjunct1,
      rule_format, of 1]
    floatToPCM16_truncates [of "[Finite (1 / 2), Finite 1, NaN]", THEN conjunct2, THEN conjunct1,
      rule_format, of 2]
  by (simp add: js_truncate_def)

text \<open>
  Claim C5 as stated fails: the sample \<open>3 / 131072\<close> (a single-precision value) has
  the product \<open>0.75\<close>, which the code stores as 0 and rounding would store as 1.
\<close>

theorem floatToPCM16_rounds_counterexample:
  "floatToPCM16 [Finite (3 / 131072)] = [0, 0] \<and> spec_floatToPCM16 [3 / 131072] = [1, 0] \<and>
   floatToPCM16 [Finite (3 / 131072)] \<noteq> spec_floatToPCM16 [3 / 131072]"
  by (simp add: floatToPCM16_eq spec_floatToPCM16_def le_bytes_def js_truncate_def round_def)

subsection \<open>Decoding\<close>

lemma decodeGeminiPCM_even:
  assumes "even (length buffer)"
    and "ctx 1 (length buffer div 2) rate = Inr (silence 1 (length buffer div 2) rate)"
  shows "decodeGeminiPCM buffer ctx rate =
     Inr \<lparr>channels = [map (\<lambda>w. real_of_int (sint w) / 32768) (int16_view buffer)],
          sampleRate = rate\<rparr>"
  using assms
  by (simp add: decodeGeminiPCM_def Int16Array_def length_int16_view silence_def
      decode_loop_eq even_iff_mod_2_eq_zero)

text \<open>
  Claim C6. \<open>decodeGeminiPCM\<close> fails on a buffer of odd length (the RangeError of
  \<open>new Int16Array(buffer)\<close>, which the specification calls MalformedAudioError). On a
  buffer of even length, with a context whose \<open>createBuffer\<close> returns the buffer asked
  for, it returns one channel whose sample \<open>k\<close> is the little-endian signed 16-bit
  integer of the bytes \<open>2k\<close> and \<open>2k + 1\<close>, divided by 32768. The only other failure is
  the one of \<open>createBuffer\<close> itself.
\<close>

theorem decodeGeminiPCM_decodes:
  "(odd (length buffer) \<longrightarrow> decodeGeminiPCM buffer ctx rate = Inl RangeError) \<and>
   (even (length buffer) \<longrightarrow>
      ctx 1 (length buffer div 2) rate = Inr (silence 1 (length buffer div 2) rate) \<longrightarrow>
      decodeGeminiPCM buffer ctx rate =
        Inr \<lparr>channels =
               [map (\<lambda>k. let u = uint (buffer ! (2 * k)) + 256 * uint (buffer ! (2 * k + 1))
                        in real_of_int (if u < 32768 then u else u - 65536) / 32768)
                  [0..<length buffer div 2]],
             sampleRate = rate\<rparr>) \<and>
   (even (length buffer) \<longrightarrow> ctx 1 (length buffer div 2) rate = Inl e \<longrightarrow>
      decodeGeminiPCM buffer ctx rate = Inl e)"
proof (intro conjI impI)
  assume "odd (length buffer)"
  then show "decodeGeminiPCM buffer ctx rate = Inl RangeError"
    by (simp add: decodeGeminiPCM_def Int16Array_def odd_iff_mod_2_eq_one)
next
  assume ev: "even (length buffer)"
    and ok: "ctx 1 (length buffer div 2) rate = Inr (silence 1 (length buffer div 2) rate)"
  have "map (\<lambda>w. real_of_int (sint w) / 32768) (int16_view buffer) =
      map (\<lambda>k. let u = uint (buffer ! (2 * k)) + 256 * uint (buffer ! (2 * k + 1))
                        in real_of_int (if u < 32768 then u else u - 65536) / 32768)
                  [0..<length buffer div 2]"
    by (rule nth_equalityI)
      (simp_all add: length_int16_view nth_int16_view sint16_uint uint_assemble Let_def)
  with decodeGeminiPCM_even [of buffer ctx rate, OF ev ok]
  show "decodeGeminiPCM buffer ctx rate =
        Inr \<lparr>channels =
               [map (\<lambda>k. let u = uint (buffer ! (2 * k)) + 256 * uint (buffer ! (2 * k + 1))
                        in real_of_int (if u < 32768 then u else u - 65536) / 32768)
                  [0..<length buffer div 2]],
             sampleRate = rate\<rparr>"
    by simp
next
  assume "even (length buffer)" and "ctx 1 (length buffer div 2) rate = Inl e"
  then show "decodeGeminiPCM buffer ctx rate = Inl e"
    by (simp add: decodeGeminiPCM_def Int16Array_def length_int16_view even_iff_mod_2_eq_zero)
qed

text \<open>
  The theorem at a buffer of three bytes, at the two samples \<open>0x8000\<close> and \<open>0x4000\<close>,
  and at the empty buffer, for which \<open>createBuffer\<close> refuses a length of zero.
\<close>

theorem decodeGeminiPCM_decodes_witness:
  "decodeGeminiPCM [0, 128, 255] createBuffer default_sampleRate = Inl RangeError \<and>
   decodeGeminiPCM [0, 128, 0, 64] createBuffer default_sampleRate =
     Inr \<lparr>channels = [[- 1, 1 / 2]], sampleRate = 24000\<rparr> \<and>
   decodeGeminiPCM [] createBuffer default_sampleRate = Inl NotSupportedError"
proof -
  have "[0..<2] = [0, Suc 0]" by (simp add: upt_rec)
  then show ?thesis
    using decodeGeminiPCM_decodes [of "[0, 128, 255]" createBuffer default_sampleRate NotSupportedError]
      decodeGeminiPCM_decodes [of "[0, 128, 0, 64]" createBuffer default_sampleRate NotSupportedError]
      decodeGeminiPCM_decodes [of "[]" createBuffer default_sampleRate NotSupportedError]
    by (simp add: createBuffer_def default_sampleRate_def)
qed

subsection \<open>Encoding, then decoding\<close>

lemma int16_view_floatToPCM16:
  "int16_view (floatToPCM16 data) = map (\<lambda>s. ToInt16 (times_number s 32768)) data"
proof -
  have "floatToPCM16 data
      = Uint8Array_of_buffer (map (\<lambda>s. ToInt16 (times_number s 32768)) data)"
    by (simp add: floatToPCM16_eq Uint8Array_of_buffer_def comp_def)
  then show ?thesis by (simp only: int16_view_bytes)
qed

lemma roundtrip_sample:
  assumes "- 1 \<le> x" and "x < 1"
  shows "\<bar>real_of_int (sint (ToInt16 (times_number (Finite x) 32768))) / 32768 - x\<bar> < 1 / 32768"
proof -
  let ?t = "js_truncate (x * 32768)"
  from assms have "- 32768 \<le> x * 32768" "x * 32768 < 32768" by simp_all
  from truncate_bounds [OF this] have "sint (word_of_int ?t :: int16) = ?t"
    by (simp add: sint_word_of_int16)
  moreover have "\<bar>real_of_int ?t - x * 32768\<bar> < 1"
    by (rule truncate_near)
  then have "\<bar>real_of_int ?t / 32768 - x\<bar> < 1 / 32768"
    by (simp add: abs_if field_simps split: if_splits)
  ultimately show ?thesis by simp
qed

text \<open>
  Claim C7, as the code has it. For samples in \<open>[-1, 1)\<close>, decoding the bytes of the
  encoder gives as many samples, each less than one quantization step \<open>1 / 32768\<close>
  away from the original.
\<close>

theorem roundtrip_within_one_step:
  assumes range: "\<forall>x \<in> set xs. - 1 \<le> x \<and> x < 1"
    and ctx: "ctx 1 (length xs) rate = Inr (silence 1 (length xs) rate)"
  shows "\<exists>ys. decodeGeminiPCM (floatToPCM16 (map Finite xs)) ctx rate
            = Inr \<lparr>channels = [ys], sampleRate = rate\<rparr>
          \<and> length ys = length xs
          \<and> (\<forall>i<length xs. \<bar>ys ! i - xs ! i\<bar> < 1 / 32768)"
proof -
  let ?bytes = "floatToPCM16 (map Finite xs)"
  let ?ys = "map (\<lambda>w. real_of_int (sint w) / 32768) (int16_view ?bytes)"
  have len: "length ?bytes = 2 * length xs"
    using floatToPCM16_eq [of "map Finite xs"]
      length_concat_le_bytes [of "map (\<lambda>s. ToInt16 (times_number s 32768)) (map Finite xs)"]
    by (simp add: comp_def)
  then have "even (length ?bytes)" and half: "length ?bytes div 2 = length xs"
    by simp_all
  with ctx have "decodeGeminiPCM ?bytes ctx rate = Inr \<lparr>channels = [?ys], sampleRate = rate\<rparr>"
    by (intro decodeGeminiPCM_even) simp_all
  moreover have "length ?ys = length xs"
    by (simp add: length_int16_view half)
  moreover have "\<forall>i<length xs. \<bar>?ys ! i - xs ! i\<bar> < 1 / 32768"
  proof (intro allI impI)
    fix i assume i: "i < length xs"
    then have "xs ! i \<in> set xs" by simp
    with range have "- 1 \<le> xs ! i" "xs ! i < 1" by auto
    from roundtrip_sample [OF this] show "\<bar>?ys ! i - xs ! i\<bar> < 1 / 32768"
      using i by (simp add: int16_view_floatToPCM16)
  qed
  ultimately show ?thesis by blast
qed

text \<open>
  The theorem at the samples \<open>-1\<close> and \<open>1 / 3\<close>.
\<close>

theorem roundtrip_within_one_step_witness:
  "\<exists>ys. decodeGeminiPCM (floatToPCM16 (map Finite [- 1, 1 / 3])) createBuffer default_sampleRate
            = Inr \<lparr>channels = [ys], sampleRate = default_sampleRate\<rparr>
          \<and> length ys = 2
          \<and> \<bar>ys ! 0 - (- 1)\<bar> < 1 / 32768 \<and> \<bar>ys ! 1 - 1 / 3\<bar> < 1 / 32768"
proof -
  have r: "\<forall>x \<in> set [- 1, 1 / 3 :: real]. - 1 \<le> x \<and> x < 1" by simp
  have c: "createBuffer 1 (length [- 1, 1 / 3 :: real]) default_sampleRate
      = Inr (silence 1 (length [- 1, 1 / 3 :: real]) default_sampleRate)"
    by (simp add: createBuffer_def default_sampleRate_def)
  from roundtrip_within_one_step [of "[- 1, 1 / 3]" createBuffer default_sampleRate, OF r c]
  obtain ys where
    ys: "decodeGeminiPCM (floatToPCM16 (map Finite [- 1, 1 / 3])) createBuffer default_sampleRate
            = Inr \<lparr>channels = [ys], sampleRate = default_sampleRate\<rparr>"
      "length ys = length [- 1, 1 / 3 :: real]"
      "\<forall>i<length [- 1, 1 / 3 :: real]. \<bar>ys ! i - [- 1, 1 / 3] ! i\<bar> < 1 / 32768"
    by blast
  from ys(3) have "\<bar>ys ! 0 - (- 1)\<bar> < 1 / 32768" "\<bar>ys ! 1 - 1 / 3\<bar> < 1 / 32768"
    by (auto dest: spec [of _ 0] spec [of _ 1])
  with ys(1,2) show ?thesis by auto
qed

text \<open>
  Claim C7 as stated fails at the sample \<open>1.0\<close>, which lies in \<open>[-1, 1]\<close>: the product
  32768 wraps to \<open>-32768\<close> and decodes to \<open>-1.0\<close>, two units away from the original.
\<close>

theorem roundtrip_full_scale_counterexample:
  "floatToPCM16 [Finite 1] = [0, 128] \<and>
   decodeGeminiPCM (floatToPCM16 [Finite 1]) createBuffer default_sampleRate
     = Inr \<lparr>channels = [[- 1]], sampleRate = 24000\<rparr> \<and>
   \<not> \<bar>(- 1 :: real) - 1\<bar> \<le> 1 / 32768"
proof -
  have b: "floatToPCM16 [Finite 1] = [0, 128]"
    by (simp add: floatToPCM16_eq le_bytes_def js_truncate_def)
  have c: "createBuffer 1 (length [0, 128 :: byte] div 2) default_sampleRate
      = Inr (silence 1 (length [0, 128 :: byte] div 2) default_sampleRate)"
    by (simp add: createBuffer_def default_sampleRate_def)
  have "decodeGeminiPCM [0, 128] createBuffer default_sampleRate
     = Inr \<lparr>channels = [[- 1]], sampleRate = 24000\<rparr>"
    using decodeGeminiPCM_even [of "[0, 128]" createBuffer default_sampleRate, OF _ c]
    by (simp add: default_sampleRate_def)
  with b show ?thesis by simp
qed

section \<open>Properties of handleSpeak\<close>

text \<open>
  Two calls of the handler of one render both read the \<open>isSpeaking\<close> of that render
  and both issue a request. The buttons never do this: a click sets the flag, and the
  render that follows replaces the handler before the next click is handled.
\<close>

lemma handleSpeak_same_closure_twice:
  assumes "v \<noteq> []" and "w \<noteq> []" and "audioContextRef st = Some ctx"
  shows "handleSpeak False nac v st = (st\<lparr>isSpeaking := True\<rparr>, Some (AwaitSpeech v))
     \<and> handleSpeak False nac w (st\<lparr>isSpeaking := True\<rparr>)
          = (st\<lparr>isSpeaking := True\<rparr>, Some (AwaitSpeech w))"
  using assms by (simp add: handleSpeak_def)

text \<open>
  Claim C8. \<open>handleSpeak\<close> does nothing for the empty text and nothing when its render
  saw a playback in progress. When no playback is in progress and a context exists or
  can be created, the call of the latest handler sets the flag and issues the one
  request \<open>generateSpeech(text)\<close>; a call of the handler of the next render, made while
  the first is in flight, issues no request and changes nothing: it is rejected, not
  queued. Every error clears the flag: a context that cannot be created (no request is
  issued then), a request that fails, audio data that cannot be decoded, and a
  playback that cannot be started. After a successful start the flag is cleared when
  the playback ends.
\<close>

theorem handleSpeak_single_flight:
  "handleSpeak seen nac [] st = (st, None)
   \<and> handleSpeak True nac v st = (st, None)
   \<and> (v \<noteq> [] \<and> \<not> isSpeaking st
        \<and> (audioContextRef st = None \<longrightarrow> nac = Inr ctx) \<longrightarrow>
        (\<exists>st'. handleSpeak (isSpeaking st) nac v st = (st', Some (AwaitSpeech v))
           \<and> isSpeaking st' \<and> audioContextRef st' \<noteq> None
           \<and> st' = st\<lparr>isSpeaking := True, audioContextRef := audioContextRef st'\<rparr>
           \<and> handleSpeak (isSpeaking st') nac' w st' = (st', None)))
   \<and> (v \<noteq> [] \<and> audioContextRef st = None \<and> nac = Inl e \<longrightarrow>
        handleSpeak False nac v st = (st\<lparr>isSpeaking := False\<rparr>, None))
   \<and> handleSpeak_resume sp st (AwaitSpeech v) SpeechRejected = (st\<lparr>isSpeaking := False\<rparr>, None)
   \<and> (audioContextRef st = None
        \<or> (\<exists>c e. audioContextRef st = Some c
              \<and> decodeGeminiPCM audioData c default_sampleRate = Inl e)
        \<or> (\<exists>c b e. audioContextRef st = Some c
              \<and> decodeGeminiPCM audioData c default_sampleRate = Inr b \<and> sp b = Some e) \<longrightarrow>
        handleSpeak_resume sp st (AwaitSpeech v) (SpeechFulfilled audioData)
          = (st\<lparr>isSpeaking := False\<rparr>, None))
   \<and> (audioContextRef st = Some c
        \<and> decodeGeminiPCM audioData c default_sampleRate = Inr b \<and> sp b = None \<longrightarrow>
        handleSpeak_resume sp st (AwaitSpeech v) (SpeechFulfilled audioData)
          = (st, Some AwaitEnded))
   \<and> handleSpeak_resume sp st AwaitEnded Ended = (st\<lparr>isSpeaking := False\<rparr>, None)"
proof (intro conjI impI)
  show "handleSpeak seen nac [] st = (st, None)"
    by (simp add: handleSpeak_def)
  show "handleSpeak True nac v st = (st, None)"
    by (simp add: handleSpeak_def)
next
  assume a: "v \<noteq> [] \<and> \<not> isSpeaking st \<and> (audioContextRef st = None \<longrightarrow> nac = Inr ctx)"
  show "\<exists>st'. handleSpeak (isSpeaking st) nac v st = (st', Some (AwaitSpeech v))
           \<and> isSpeaking st' \<and> audioContextRef st' \<noteq> None
           \<and> st' = st\<lparr>isSpeaking := True, audioContextRef := audioContextRef st'\<rparr>
           \<and> handleSpeak (isSpeaking st') nac' w st' = (st', None)"
  proof (cases "audioContextRef st")
    case None
    with a show ?thesis
      by (intro exI [of _ "st\<lparr>isSpeaking := True, audioContextRef := Some ctx\<rparr>"])
        (simp add: handleSpeak_def)
  next
    case (Some c)
    with a show ?thesis
      by (intro exI [of _ "st\<lparr>isSpeaking := True\<rparr>"]) (simp add: handleSpeak_def)
  qed
next
  assume "v \<noteq> [] \<and> audioContextRef st = None \<and> nac = Inl e"
  then show "handleSpeak False nac v st = (st\<lparr>isSpeaking := False\<rparr>, None)"
    by (simp add: handleSpeak_def)
next
  show "handleSpeak_resume sp st (AwaitSpeech v) SpeechRejected = (st\<lparr>isSpeaking := False\<rparr>, None)"
    by simp
next
  assume "audioContextRef st = None
        \<or> (\<exists>c e. audioContextRef st = Some c
              \<and> decodeGeminiPCM audioData c default_sampleRate = Inl e)
        \<or> (\<exists>c b e. audioContextRef st = Some c
              \<and> decodeGeminiPCM audioData c default_sampleRate = Inr b \<and> sp b = Some e)"
  then show "handleSpeak_resume sp st (AwaitSpeech v) (SpeechFulfilled audioData)
          = (st\<lparr>isSpeaking := False\<rparr>, None)"
    by auto
next
  assume "audioContextRef st = Some c
        \<and> decodeGeminiPCM audioData c default_sampleRate = Inr b \<and> sp b = None"
  then show "handleSpeak_resume sp st (AwaitSpeech v) (SpeechFulfilled audioData)
          = (st, Some AwaitEnded)"
    by simp
next
  show "handleSpeak_resume sp st AwaitEnded Ended = (st\<lparr>isSpeaking := False\<rparr>, None)"
    by simp
qed

text \<open>
  The theorem at the initial state and the text \<open>hi\<close>: one request for two calls, no
  request when the context cannot be created, and the flag cleared by a reply of three
  bytes, which cannot be decoded, and by a playback that fails to start.
\<close>

theorem handleSpeak_single_flight_witness:
  "handleSpeak False (Inr createBuffer) [] initial_state = (initial_state, None)
   \<and> handleSpeak False (Inr createBuffer) (ascii ''hi'') initial_state
        = (initial_state\<lparr>isSpeaking := True, audioContextRef := Some createBuffer\<rparr>,
           Some (AwaitSpeech (ascii ''hi'')))
   \<and> handleSpeak True (Inr createBuffer) (ascii ''hi'')
        (initial_state\<lparr>isSpeaking := True, audioContextRef := Some createBuffer\<rparr>)
        = (initial_state\<lparr>isSpeaking := True, audioContextRef := Some createBuffer\<rparr>, None)
   \<and> handleSpeak False (Inl NotSupportedError) (ascii ''hi'') initial_state
        = (initial_state, None)
   \<and> handleSpeak_resume (\<lambda>b. None)
        (initial_state\<lparr>isSpeaking := True, audioContextRef := Some createBuffer\<rparr>)
        (AwaitSpeech (ascii ''hi'')) (SpeechFulfilled [0, 128, 255])
        = (initial_state\<lparr>audioContextRef := Some createBuffer\<rparr>, None)
   \<and> handleSpeak_resume (\<lambda>b. Some NotSupportedError)
        (initial_state\<lparr>isSpeaking := True, audioContextRef := Some createBuffer\<rparr>)
        (AwaitSpeech (ascii ''hi'')) (SpeechFulfilled [0, 128])
        = (initial_state\<lparr>audioContextRef := Some createBuffer\<rparr>, None)"
proof -
  let ?st = "initial_state\<lparr>isSpeaking := True, audioContextRef := Some createBuffer\<rparr>"
  have a: "ascii ''hi'' \<noteq> []" by (simp add: ascii_def)
  have i: "\<not> isSpeaking initial_state" "audioContextRef initial_state = None"
    "initial_state\<lparr>isSpeaking := False\<rparr> = initial_state"
    "?st\<lparr>isSpeaking := False\<rparr> = initial_state\<lparr>audioContextRef := Some createBuffer\<rparr>"
    by (simp_all add: initial_state_def)
  have d1: "decodeGeminiPCM [0, 128, 255] createBuffer default_sampleRate = Inl RangeError"
    by (simp add: decodeGeminiPCM_def Int16Array_def)
  have d2: "\<exists>b. decodeGeminiPCM [0, 128] createBuffer default_sampleRate = Inr b"
    by (simp add: decodeGeminiPCM_def Int16Array_def createBuffer_def silence_def
        default_sampleRate_def)
  note sf = handleSpeak_single_flight [of False "Inr createBuffer" initial_state "ascii ''hi''"
      createBuffer "Inr createBuffer" "ascii ''hi''" NotSupportedError]
  from sf have 1: "handleSpeak False (Inr createBuffer) [] initial_state = (initial_state, None)"
    by blast
  from sf a i(1) obtain st' where
    s: "handleSpeak (isSpeaking initial_state) (Inr createBuffer) (ascii ''hi'') initial_state
          = (st', Some (AwaitSpeech (ascii ''hi'')))"
      "handleSpeak (isSpeaking st') (Inr createBuffer) (ascii ''hi'') st' = (st', None)"
      "isSpeaking st'"
    by blast
  have st': "st' = ?st"
    using s(1) a i(1,2) by (simp add: handleSpeak_def)
  from s i(1) have 2: "handleSpeak False (Inr createBuffer) (ascii ''hi'') initial_state
        = (?st, Some (AwaitSpeech (ascii ''hi'')))"
    and 3: "handleSpeak True (Inr createBuffer) (ascii ''hi'') ?st = (?st, None)"
    unfolding st' by simp_all
  from handleSpeak_single_flight [of False "Inl NotSupportedError" initial_state "ascii ''hi''"
      createBuffer "Inr createBuffer" "ascii ''hi''" NotSupportedError] a i(2,3)
  have 4: "handleSpeak False (Inl NotSupportedError) (ascii ''hi'') initial_state
        = (initial_state, None)"
    by simp
  have c: "audioContextRef ?st = Some createBuffer" by simp
  from handleSpeak_single_flight [of False "Inr createBuffer" ?st "ascii ''hi''"
      createBuffer "Inr createBuffer" "ascii ''hi''" NotSupportedError "\<lambda>b. None"
      "[0, 128, 255]"] c d1 i(4)
  have 5: "handleSpeak_resume (\<lambda>b. None) ?st (AwaitSpeech (ascii ''hi''))
        (SpeechFulfilled [0, 128, 255])
        = (initial_state\<lparr>audioContextRef := Some createBuffer\<rparr>, None)"
    by simp
  from handleSpeak_single_flight [of False "Inr createBuffer" ?st "ascii ''hi''"
      createBuffer "Inr createBuffer" "ascii ''hi''" NotSupportedError
      "\<lambda>b. Some NotSupportedError" "[0, 128]"] c d2 i(4)
  have 6: "handleSpeak_resume (\<lambda>b. Some NotSupportedError) ?st (AwaitSpeech (ascii ''hi''))
        (SpeechFulfilled [0, 128])
        = (initial_state\<lparr>audioContextRef := Some createBuffer\<rparr>, None)"
    by auto
  from 1 2 3 4 5 6 show ?thesis by simp
qed

end
